theory Spec2Isabelle
  imports Main
begin

section \<open>wait-times-exporter: a shallow embedding of main.go\<close>

text \<open>
  The program is a linear script with effects: it reads the process environment, talks to
  a database, writes files and runs git.  Every external call is answered by a field of
  the record \<open>world\<close>; every effect is appended to a trace of events kept in the
  process state, together with the two pieces of process-global state the program touches
  (the environment variables and the working directory).  Errors are values.
\<close>

type_synonym bytes = string

subsection \<open>Library functions used by the program\<close>

text \<open>
  The program calls the Go standard library (\<^verbatim>\<open>strconv\<close>, \<^verbatim>\<open>os\<close>, \<^verbatim>\<open>time\<close>,
  \<^verbatim>\<open>bytes\<close>, \<^verbatim>\<open>path/filepath\<close>, \<^verbatim>\<open>encoding/json\<close>) and \<^verbatim>\<open>godotenv\<close>.  Their
  code is not part of the repository; the pure functions among them are written out here
  as they behave in Go 1.22 on a 64-bit Unix platform, and the calls with effects are
  answered by the record \<open>world\<close> below.
\<close>

text \<open>The numeric value of a byte.\<close>

definition ord :: "char \<Rightarrow> nat" where
  "ord c = of_char c"

definition isDigit :: "char \<Rightarrow> bool" where
  "isDigit c = (48 \<le> ord c \<and> ord c \<le> 57)"

text \<open>
  \<^verbatim>\<open>strconv.Atoi\<close> on a 64-bit platform: an optional sign, then one or more decimal
  digits, and a value that fits in a signed 64-bit integer.  Everything else is an error,
  the empty string included.  The digits are read from the left as \<^verbatim>\<open>ParseUint\<close> reads
  them: the first byte that is not a digit is a syntax error, and a digit with which the
  value no longer fits in 64 bits is a range error, whichever comes first.
\<close>

datatype num_error = ErrSyntax | ErrRange

fun parse_digits :: "string \<Rightarrow> nat \<Rightarrow> num_error + nat" where
  "parse_digits [] acc = Inr acc"
| "parse_digits (c # cs) acc =
     (if \<not> isDigit c then Inl ErrSyntax
      else if 2 ^ 64 \<le> acc * 10 + (ord c - 48) then Inl ErrRange
      else parse_digits cs (acc * 10 + (ord c - 48)))"

definition strconv_Atoi :: "string \<Rightarrow> num_error + int" where
  "strconv_Atoi s =
     (let neg = (s \<noteq> [] \<and> hd s = CHR ''-'');
          ds = (if s \<noteq> [] \<and> (hd s = CHR ''-'' \<or> hd s = CHR ''+'') then tl s else s)
      in if ds = [] then Inl ErrSyntax
         else case parse_digits ds 0 of
                Inl e \<Rightarrow> Inl e
              | Inr n \<Rightarrow>
                  if neg then (if 2 ^ 63 < n then Inl ErrRange else Inr (- int n))
                  else (if 2 ^ 63 \<le> n then Inl ErrRange else Inr (int n)))"

text \<open>\<^verbatim>\<open>os.Getenv\<close> returns the empty string for an unset variable.\<close>

definition os_Getenv :: "(string \<rightharpoonup> string) \<Rightarrow> string \<Rightarrow> string" where
  "os_Getenv env key = (case env key of None \<Rightarrow> [] | Some v \<Rightarrow> v)"

text \<open>Decimal rendering, as \<^verbatim>\<open>%d\<close> and the date layout do it.\<close>

fun string_of_nat :: "nat \<Rightarrow> string" where
  "string_of_nat n =
     (if n < 10 then [char_of (48 + n)]
      else string_of_nat (n div 10) @ [char_of (48 + n mod 10)])"

declare string_of_nat.simps [simp del]

definition string_of_int :: "int \<Rightarrow> string" where
  "string_of_int i = (if i < 0 then CHR ''-'' # string_of_nat (nat (- i)) else string_of_nat (nat i))"

text \<open>
  \<^verbatim>\<open>appendInt(b, x, width)\<close> of package time: a minus sign for a negative number, then
  the digits, padded with zeros on the left up to the width.
\<close>

definition appendInt :: "int \<Rightarrow> nat \<Rightarrow> string" where
  "appendInt x width =
     (let ds = string_of_nat (nat \<bar>x\<bar>)
      in (if x < 0 then ''-'' else '''') @ replicate (width - length ds) CHR ''0'' @ ds)"

record date =
  year :: int
  month :: nat
  day :: nat

text \<open>\<^verbatim>\<open>t.Format("2006-01-02")\<close>: the year on four digits, month and day on two.\<close>

definition time_Format :: "date \<Rightarrow> string" where
  "time_Format d = appendInt (year d) 4 @ ''-'' @ appendInt (int (month d)) 2 @ ''-''
                   @ appendInt (int (day d)) 2"

text \<open>\<^verbatim>\<open>bytes.Contains(b, sub)\<close>: \<open>sub\<close> occurs in \<open>b\<close> as a contiguous run.\<close>

fun is_prefix :: "bytes \<Rightarrow> bytes \<Rightarrow> bool" where
  "is_prefix [] ys = True"
| "is_prefix (x # xs) [] = False"
| "is_prefix (x # xs) (y # ys) = (x = y \<and> is_prefix xs ys)"

fun bytes_Contains :: "bytes \<Rightarrow> bytes \<Rightarrow> bool" where
  "bytes_Contains [] sub = (sub = [])"
| "bytes_Contains (b # bs) sub = (is_prefix sub (b # bs) \<or> bytes_Contains bs sub)"

text \<open>
  \<^verbatim>\<open>filepath.Join\<close> on Unix: the non-empty elements are joined with a slash and the
  result is cleaned (\<^verbatim>\<open>filepath.Clean\<close>): empty and \<^verbatim>\<open>.\<close> elements are dropped, a
  \<^verbatim>\<open>..\<close> element removes the element before it where there is one to remove, is
  dropped at the root and is kept at the start of a relative path.  The elements are kept
  on a stack, the last one first.
\<close>

fun split_slash :: "string \<Rightarrow> string \<Rightarrow> string list" where
  "split_slash [] cur = [rev cur]"
| "split_slash (c # cs) cur =
     (if c = CHR ''/'' then rev cur # split_slash cs [] else split_slash cs (c # cur))"

definition clean_elem :: "bool \<Rightarrow> string list \<Rightarrow> string \<Rightarrow> string list" where
  "clean_elem rooted stack e =
     (if e = [] \<or> e = ''.'' then stack
      else if e = ''..'' then
        (case stack of
           [] \<Rightarrow> if rooted then [] else [''..'']
         | t # ts \<Rightarrow> if t = ''..'' then ''..'' # t # ts else ts)
      else e # stack)"

fun join_slash :: "string list \<Rightarrow> string" where
  "join_slash [] = []"
| "join_slash [e] = e"
| "join_slash (e # f # es) = e @ ''/'' @ join_slash (f # es)"

definition filepath_Clean :: "string \<Rightarrow> string" where
  "filepath_Clean path =
     (if path = [] then ''.''
      else let rooted = (hd path = CHR ''/'');
               stack = foldl (clean_elem rooted) [] (split_slash path []);
               body = join_slash (rev stack)
           in if rooted then CHR ''/'' # body
              else if stack = [] then ''.'' else body)"

definition filepath_Join :: "string \<Rightarrow> string \<Rightarrow> string" where
  "filepath_Join dir name =
     (if dir \<noteq> [] then filepath_Clean (dir @ ''/'' @ name)
      else if name \<noteq> [] then filepath_Clean name
      else [])"

subsection \<open>Package encoding/json: the scanner\<close>

text \<open>
  \<^verbatim>\<open>json.Marshal\<close> of a \<^verbatim>\<open>json.RawMessage\<close> and \<^verbatim>\<open>json.Indent\<close> both run the
  package's scanner over the bytes: a state machine with a stack of the enclosing objects
  and arrays.  The stack is kept with the innermost entry first.
\<close>

datatype step =
    BeginValueOrEmpty | BeginValue | BeginStringOrEmpty | BeginString | EndValue | EndTop
  | InString | InStringEsc | InStringEscU | InStringEscU1 | InStringEscU12 | InStringEscU123
  | Neg | St1 | St0 | Dot | Dot0 | StE | ESign | E0
  | StT | Tr | Tru | StF | Fa | Fal | Fals | StN | Nu | Nul
  | StError

datatype parse_state = ParseObjectKey | ParseObjectValue | ParseArrayValue

datatype opcode =
    ScanContinue | ScanBeginLiteral | ScanBeginObject | ScanObjectKey | ScanObjectValue
  | ScanEndObject | ScanBeginArray | ScanArrayValue | ScanEndArray | ScanSkipSpace
  | ScanEnd | ScanError

record scanner =
  step :: step
  parseState :: "parse_state list"
  failed :: bool
  endTop :: bool

definition newScanner :: scanner where
  "newScanner = \<lparr>step = BeginValue, parseState = [], failed = False, endTop = False\<rparr>"

definition maxNestingDepth :: nat where
  "maxNestingDepth = 10000"

definition isSpace :: "char \<Rightarrow> bool" where
  "isSpace c = (c = CHR '' '' \<or> c = CHR 0x09 \<or> c = CHR 0x0D \<or> c = CHR 0x0A)"

definition isHex :: "char \<Rightarrow> bool" where
  "isHex c = (isDigit c \<or> (97 \<le> ord c \<and> ord c \<le> 102) \<or> (65 \<le> ord c \<and> ord c \<le> 70))"

definition scan_error :: "scanner \<Rightarrow> scanner \<times> opcode" where
  "scan_error s = (s\<lparr>step := StError, failed := True\<rparr>, ScanError)"

definition goto :: "step \<Rightarrow> opcode \<Rightarrow> scanner \<Rightarrow> scanner \<times> opcode" where
  "goto st v s = (s\<lparr>step := st\<rparr>, v)"

definition pushParseState :: "scanner \<Rightarrow> parse_state \<Rightarrow> opcode \<Rightarrow> scanner \<times> opcode" where
  "pushParseState s newParseState successState =
     (let s' = s\<lparr>parseState := newParseState # parseState s\<rparr>
      in if length (parseState s') \<le> maxNestingDepth then (s', successState)
         else scan_error s')"

definition popParseState :: "scanner \<Rightarrow> scanner" where
  "popParseState s =
     (let ps = tl (parseState s)
      in if ps = [] then s\<lparr>parseState := ps, step := EndTop, endTop := True\<rparr>
         else s\<lparr>parseState := ps, step := EndValue\<rparr>)"

definition stateEndTop :: "scanner \<Rightarrow> char \<Rightarrow> scanner \<times> opcode" where
  "stateEndTop s c = (if \<not> isSpace c then (fst (scan_error s), ScanEnd) else (s, ScanEnd))"

definition stateEndValue :: "scanner \<Rightarrow> char \<Rightarrow> scanner \<times> opcode" where
  "stateEndValue s c =
     (case parseState s of
        [] \<Rightarrow> stateEndTop (s\<lparr>step := EndTop, endTop := True\<rparr>) c
      | ps # rest \<Rightarrow>
          if isSpace c then goto EndValue ScanSkipSpace s
          else (case ps of
                  ParseObjectKey \<Rightarrow>
                    if c = CHR '':'' then
                      goto BeginValue ScanObjectKey (s\<lparr>parseState := ParseObjectValue # rest\<rparr>)
                    else scan_error s
                | ParseObjectValue \<Rightarrow>
                    if c = CHR '','' then
                      goto BeginString ScanObjectValue (s\<lparr>parseState := ParseObjectKey # rest\<rparr>)
                    else if c = CHR ''}'' then (popParseState s, ScanEndObject)
                    else scan_error s
                | ParseArrayValue \<Rightarrow>
                    if c = CHR '','' then goto BeginValue ScanArrayValue s
                    else if c = CHR '']'' then (popParseState s, ScanEndArray)
                    else scan_error s))"

definition stateBeginValue :: "scanner \<Rightarrow> char \<Rightarrow> scanner \<times> opcode" where
  "stateBeginValue s c =
     (if isSpace c then (s, ScanSkipSpace)
      else if c = CHR ''{'' then
        pushParseState (s\<lparr>step := BeginStringOrEmpty\<rparr>) ParseObjectKey ScanBeginObject
      else if c = CHR ''['' then
        pushParseState (s\<lparr>step := BeginValueOrEmpty\<rparr>) ParseArrayValue ScanBeginArray
      else if c = CHR 0x22 then goto InString ScanBeginLiteral s
      else if c = CHR ''-'' then goto Neg ScanBeginLiteral s
      else if c = CHR ''0'' then goto St0 ScanBeginLiteral s
      else if c = CHR ''t'' then goto StT ScanBeginLiteral s
      else if c = CHR ''f'' then goto StF ScanBeginLiteral s
      else if c = CHR ''n'' then goto StN ScanBeginLiteral s
      else if 49 \<le> ord c \<and> ord c \<le> 57 then goto St1 ScanBeginLiteral s
      else scan_error s)"

definition stateBeginValueOrEmpty :: "scanner \<Rightarrow> char \<Rightarrow> scanner \<times> opcode" where
  "stateBeginValueOrEmpty s c =
     (if isSpace c then (s, ScanSkipSpace)
      else if c = CHR '']'' then stateEndValue s c
      else stateBeginValue s c)"

definition stateBeginString :: "scanner \<Rightarrow> char \<Rightarrow> scanner \<times> opcode" where
  "stateBeginString s c =
     (if isSpace c then (s, ScanSkipSpace)
      else if c = CHR 0x22 then goto InString ScanBeginLiteral s
      else scan_error s)"

text \<open>
  In \<^verbatim>\<open>stateBeginStringOrEmpty\<close> the source overwrites the innermost stack entry; the
  state is entered only after an opening brace has pushed one.
\<close>

definition stateBeginStringOrEmpty :: "scanner \<Rightarrow> char \<Rightarrow> scanner \<times> opcode" where
  "stateBeginStringOrEmpty s c =
     (if isSpace c then (s, ScanSkipSpace)
      else if c = CHR ''}'' then
        stateEndValue (s\<lparr>parseState := ParseObjectValue # tl (parseState s)\<rparr>) c
      else stateBeginString s c)"

definition stateInString :: "scanner \<Rightarrow> char \<Rightarrow> scanner \<times> opcode" where
  "stateInString s c =
     (if c = CHR 0x22 then goto EndValue ScanContinue s
      else if c = CHR 0x5C then goto InStringEsc ScanContinue s
      else if ord c < 32 then scan_error s
      else (s, ScanContinue))"

definition stateInStringEsc :: "scanner \<Rightarrow> char \<Rightarrow> scanner \<times> opcode" where
  "stateInStringEsc s c =
     (if c \<in> set ''bfnrt'' \<or> c = CHR 0x5C \<or> c = CHR ''/'' \<or> c = CHR 0x22 then
        goto InString ScanContinue s
      else if c = CHR ''u'' then goto InStringEscU ScanContinue s
      else scan_error s)"

definition stateHex :: "step \<Rightarrow> scanner \<Rightarrow> char \<Rightarrow> scanner \<times> opcode" where
  "stateHex nxt s c = (if isHex c then goto nxt ScanContinue s else scan_error s)"

definition state0 :: "scanner \<Rightarrow> char \<Rightarrow> scanner \<times> opcode" where
  "state0 s c =
     (if c = CHR ''.'' then goto Dot ScanContinue s
      else if c = CHR ''e'' \<or> c = CHR ''E'' then goto StE ScanContinue s
      else stateEndValue s c)"

definition state1 :: "scanner \<Rightarrow> char \<Rightarrow> scanner \<times> opcode" where
  "state1 s c = (if isDigit c then goto St1 ScanContinue s else state0 s c)"

definition stateNeg :: "scanner \<Rightarrow> char \<Rightarrow> scanner \<times> opcode" where
  "stateNeg s c =
     (if c = CHR ''0'' then goto St0 ScanContinue s
      else if 49 \<le> ord c \<and> ord c \<le> 57 then goto St1 ScanContinue s
      else scan_error s)"

definition stateDot :: "scanner \<Rightarrow> char \<Rightarrow> scanner \<times> opcode" where
  "stateDot s c = (if isDigit c then goto Dot0 ScanContinue s else scan_error s)"

definition stateDot0 :: "scanner \<Rightarrow> char \<Rightarrow> scanner \<times> opcode" where
  "stateDot0 s c =
     (if isDigit c then (s, ScanContinue)
      else if c = CHR ''e'' \<or> c = CHR ''E'' then goto StE ScanContinue s
      else stateEndValue s c)"

definition stateESign :: "scanner \<Rightarrow> char \<Rightarrow> scanner \<times> opcode" where
  "stateESign s c = (if isDigit c then goto E0 ScanContinue s else scan_error s)"

definition stateE :: "scanner \<Rightarrow> char \<Rightarrow> scanner \<times> opcode" where
  "stateE s c =
     (if c = CHR ''+'' \<or> c = CHR ''-'' then goto ESign ScanContinue s else stateESign s c)"

definition stateE0 :: "scanner \<Rightarrow> char \<Rightarrow> scanner \<times> opcode" where
  "stateE0 s c = (if isDigit c then (s, ScanContinue) else stateEndValue s c)"

definition stateLit :: "char \<Rightarrow> step \<Rightarrow> scanner \<Rightarrow> char \<Rightarrow> scanner \<times> opcode" where
  "stateLit want nxt s c = (if c = want then goto nxt ScanContinue s else scan_error s)"

text \<open>\<^verbatim>\<open>scan.step(scan, c)\<close>: the function stored in the scanner, applied to one byte.\<close>

definition scan_step :: "scanner \<Rightarrow> char \<Rightarrow> scanner \<times> opcode" where
  "scan_step s c =
     (case step s of
        BeginValueOrEmpty \<Rightarrow> stateBeginValueOrEmpty s c
      | BeginValue \<Rightarrow> stateBeginValue s c
      | BeginStringOrEmpty \<Rightarrow> stateBeginStringOrEmpty s c
      | BeginString \<Rightarrow> stateBeginString s c
      | EndValue \<Rightarrow> stateEndValue s c
      | EndTop \<Rightarrow> stateEndTop s c
      | InString \<Rightarrow> stateInString s c
      | InStringEsc \<Rightarrow> stateInStringEsc s c
      | InStringEscU \<Rightarrow> stateHex InStringEscU1 s c
      | InStringEscU1 \<Rightarrow> stateHex InStringEscU12 s c
      | InStringEscU12 \<Rightarrow> stateHex InStringEscU123 s c
      | InStringEscU123 \<Rightarrow> stateHex InString s c
      | Neg \<Rightarrow> stateNeg s c
      | St1 \<Rightarrow> state1 s c
      | St0 \<Rightarrow> state0 s c
      | Dot \<Rightarrow> stateDot s c
      | Dot0 \<Rightarrow> stateDot0 s c
      | StE \<Rightarrow> stateE s c
      | ESign \<Rightarrow> stateESign s c
      | E0 \<Rightarrow> stateE0 s c
      | StT \<Rightarrow> stateLit CHR ''r'' Tr s c
      | Tr \<Rightarrow> stateLit CHR ''u'' Tru s c
      | Tru \<Rightarrow> stateLit CHR ''e'' EndValue s c
      | StF \<Rightarrow> stateLit CHR ''a'' Fa s c
      | Fa \<Rightarrow> stateLit CHR ''l'' Fal s c
      | Fal \<Rightarrow> stateLit CHR ''s'' Fals s c
      | Fals \<Rightarrow> stateLit CHR ''e'' EndValue s c
      | StN \<Rightarrow> stateLit CHR ''u'' Nu s c
      | Nu \<Rightarrow> stateLit CHR ''l'' Nul s c
      | Nul \<Rightarrow> stateLit CHR ''l'' EndValue s c
      | StError \<Rightarrow> (s, ScanError))"

text \<open>
  \<^verbatim>\<open>scan.eof()\<close>: the input is complete when the top-level value has ended, possibly
  only once a space is fed after a number.  True means \<^verbatim>\<open>scanError\<close>.
\<close>

definition eof_error :: "scanner \<Rightarrow> bool" where
  "eof_error s =
     (if failed s then True
      else if endTop s then False
      else \<not> endTop (fst (scan_step s CHR '' '')))"

subsection \<open>Package encoding/json: compacting, quoting and indenting\<close>

datatype json_error = SyntaxError

definition hexDigit :: "nat \<Rightarrow> char" where
  "hexDigit n = ''0123456789abcdef'' ! (n mod 16)"

definition escape00 :: "char \<Rightarrow> bytes" where
  "escape00 c = [CHR 0x5C, CHR ''u'', CHR ''0'', CHR ''0'', hexDigit (ord c div 16), hexDigit (ord c mod 16)]"

definition isHTML :: "char \<Rightarrow> bool" where
  "isHTML c = (c = CHR ''<'' \<or> c = CHR ''>'' \<or> c = CHR ''&'')"

text \<open>The bytes E2 80 A8 and E2 80 A9 are the UTF-8 encodings of U+2028 and U+2029.\<close>

definition isLineSep :: "char \<Rightarrow> bytes \<Rightarrow> bool" where
  "isLineSep c cs =
     (c = CHR 0xE2 \<and> (case cs of
                         b1 # b2 # _ \<Rightarrow> b1 = CHR 0x80 \<and> (b2 = CHR 0xA8 \<or> b2 = CHR 0xA9)
                       | _ \<Rightarrow> False))"

definition escape202 :: "bytes \<Rightarrow> bytes" where
  "escape202 cs = [CHR 0x5C, CHR ''u'', CHR ''2'', CHR ''0'', CHR ''2'', hexDigit (ord (cs ! 1) mod 16)]"

text \<open>
  \<^verbatim>\<open>appendCompact(dst, src, escape)\<close> with \<open>escape\<close> set, as \<^verbatim>\<open>json.Marshal\<close> calls it
  on what a \<^verbatim>\<open>Marshaler\<close> returns.  The source walks \<open>src\<close> with an index and copies
  the pending run of bytes whenever one byte is replaced or dropped; here each byte is
  decided on its own: \<open><\<close>, \<open>>\<close>, \<open>&\<close>, U+2028 and U+2029 are replaced by an escape
  (\<open>hold\<close> counts the two bytes that follow the first byte of U+2028/9 and go with it),
  a byte on which the scanner answers \<^verbatim>\<open>scanSkipSpace\<close> or \<^verbatim>\<open>scanEnd\<close> is dropped,
  every other byte is copied.  The loop stops at \<^verbatim>\<open>scanError\<close>.
\<close>

fun compact_loop :: "scanner \<Rightarrow> nat \<Rightarrow> bytes \<Rightarrow> bytes \<Rightarrow> scanner \<times> bytes" where
  "compact_loop s hold [] dst = (s, dst)"
| "compact_loop s hold (c # cs) dst =
     (case scan_step s c of (s', v) \<Rightarrow>
        if v = ScanError then (s', dst)
        else if 0 < hold then compact_loop s' (hold - 1) cs dst
        else if isHTML c then compact_loop s' 0 cs (dst @ escape00 c)
        else if isLineSep c cs then compact_loop s' 2 cs (dst @ escape202 cs)
        else if v = ScanSkipSpace \<or> v = ScanEnd then compact_loop s' 0 cs dst
        else compact_loop s' 0 cs (dst @ [c]))"

definition appendCompact :: "bytes \<Rightarrow> json_error + bytes" where
  "appendCompact src =
     (case compact_loop newScanner 0 src [] of (s, dst) \<Rightarrow>
        if eof_error s then Inl SyntaxError else Inr dst)"

text \<open>
  \<^verbatim>\<open>utf8.DecodeRuneInString\<close>, as far as \<^verbatim>\<open>appendString\<close> needs it: the length of the
  well-formed UTF-8 sequence at the head of the bytes, 0 when there is none.
\<close>

definition between :: "nat \<Rightarrow> nat \<Rightarrow> char \<Rightarrow> bool" where
  "between lo hi c = (lo \<le> ord c \<and> ord c \<le> hi)"

definition second_ok :: "char \<Rightarrow> char \<Rightarrow> bool" where
  "second_ok b0 b1 =
     (if b0 = CHR 0xE0 then between 0xA0 0xBF b1
      else if b0 = CHR 0xED then between 0x80 0x9F b1
      else if b0 = CHR 0xF0 then between 0x90 0xBF b1
      else if b0 = CHR 0xF4 then between 0x80 0x8F b1
      else between 0x80 0xBF b1)"

fun rune_size :: "bytes \<Rightarrow> nat" where
  "rune_size (b0 # b1 # rest) =
     (if between 0xC2 0xDF b0 then (if second_ok b0 b1 then 2 else 0)
      else if between 0xE0 0xEF b0 then
        (case rest of
           b2 # _ \<Rightarrow> if second_ok b0 b1 \<and> between 0x80 0xBF b2 then 3 else 0
         | [] \<Rightarrow> 0)
      else if between 0xF0 0xF4 b0 then
        (case rest of
           b2 # b3 # _ \<Rightarrow>
             if second_ok b0 b1 \<and> between 0x80 0xBF b2 \<and> between 0x80 0xBF b3 then 4 else 0
         | _ \<Rightarrow> 0)
      else 0)"
| "rune_size _ = 0"

text \<open>
  \<^verbatim>\<open>htmlSafeSet\<close>: the ASCII bytes that \<^verbatim>\<open>appendString\<close> copies when HTML escaping is
  on, which is the default of \<^verbatim>\<open>json.Marshal\<close>.
\<close>

definition htmlSafe :: "char \<Rightarrow> bool" where
  "htmlSafe c = (32 \<le> ord c \<and> ord c < 128 \<and> c \<noteq> CHR 0x22 \<and> c \<noteq> CHR 0x5C \<and> \<not> isHTML c)"

definition escapeByte :: "char \<Rightarrow> bytes" where
  "escapeByte b =
     (if b = CHR 0x5C \<or> b = CHR 0x22 then [CHR 0x5C, b]
      else if b = CHR 0x08 then [CHR 0x5C, CHR ''b'']
      else if b = CHR 0x0C then [CHR 0x5C, CHR ''f'']
      else if b = CHR 0x0A then [CHR 0x5C, CHR ''n'']
      else if b = CHR 0x0D then [CHR 0x5C, CHR ''r'']
      else if b = CHR 0x09 then [CHR 0x5C, CHR ''t'']
      else escape00 b)"

text \<open>
  The body of \<^verbatim>\<open>appendString\<close>.  \<open>hold\<close> counts the remaining bytes of a multi-byte
  sequence whose first byte has been handled; \<open>keep\<close> says whether they are copied (a
  well-formed sequence) or dropped (U+2028 and U+2029, replaced by an escape).
\<close>

fun quote_loop :: "nat \<Rightarrow> bool \<Rightarrow> bytes \<Rightarrow> bytes" where
  "quote_loop hold keep [] = []"
| "quote_loop hold keep (b # bs) =
     (if 0 < hold then (if keep then [b] else []) @ quote_loop (hold - 1) keep bs
      else if ord b < 128 then (if htmlSafe b then [b] else escapeByte b) @ quote_loop 0 True bs
      else if rune_size (b # bs) = 0 then
        [CHR 0x5C, CHR ''u'', CHR ''f'', CHR ''f'', CHR ''f'', CHR ''d''] @ quote_loop 0 True bs
      else if isLineSep b bs then escape202 bs @ quote_loop 2 False bs
      else b # quote_loop (rune_size (b # bs) - 1) True bs)"

definition appendString :: "string \<Rightarrow> bytes" where
  "appendString src = [CHR 0x22] @ quote_loop 0 True src @ [CHR 0x22]"

text \<open>
  \<^verbatim>\<open>json.RawMessage.MarshalJSON\<close> returns \<^verbatim>\<open>null\<close> for a nil message and the bytes
  themselves otherwise; the encoder then compacts what it got.  A nil slice is \<open>None\<close>.
\<close>

definition marshalRawMessage :: "bytes option \<Rightarrow> json_error + bytes" where
  "marshalRawMessage m = appendCompact (case m of None \<Rightarrow> ''null'' | Some b \<Rightarrow> b)"

text \<open>\<^verbatim>\<open>appendNewline\<close> with an empty prefix and the indent of two spaces.\<close>

definition appendNewline :: "int \<Rightarrow> bytes" where
  "appendNewline depth = CHR 0x0A # concat (replicate (nat depth) ''  '')"

record indenter =
  scan :: scanner
  needIndent :: bool
  depth :: int
  dst :: bytes

text \<open>One round of the loop of \<^verbatim>\<open>appendIndent\<close>, for an opcode that is neither
  \<^verbatim>\<open>scanSkipSpace\<close> nor \<^verbatim>\<open>scanError\<close>.\<close>

definition indent_emit :: "indenter \<Rightarrow> opcode \<Rightarrow> char \<Rightarrow> indenter" where
  "indent_emit st v c =
     (let st1 = (if needIndent st \<and> v \<noteq> ScanEndObject \<and> v \<noteq> ScanEndArray
                 then st\<lparr>needIndent := False, depth := depth st + 1,
                          dst := dst st @ appendNewline (depth st + 1)\<rparr>
                 else st)
      in if v = ScanContinue then st1\<lparr>dst := dst st1 @ [c]\<rparr>
         else if c = CHR ''{'' \<or> c = CHR ''['' then st1\<lparr>needIndent := True, dst := dst st1 @ [c]\<rparr>
         else if c = CHR '','' then st1\<lparr>dst := dst st1 @ [c] @ appendNewline (depth st1)\<rparr>
         else if c = CHR '':'' then st1\<lparr>dst := dst st1 @ [c, CHR '' '']\<rparr>
         else if c = CHR ''}'' \<or> c = CHR '']'' then
           (if needIndent st1 then st1\<lparr>needIndent := False, dst := dst st1 @ [c]\<rparr>
            else st1\<lparr>depth := depth st1 - 1,
                     dst := dst st1 @ appendNewline (depth st1 - 1) @ [c]\<rparr>)
         else st1\<lparr>dst := dst st1 @ [c]\<rparr>)"

fun indent_loop :: "indenter \<Rightarrow> bytes \<Rightarrow> indenter" where
  "indent_loop st [] = st"
| "indent_loop st (c # cs) =
     (case scan_step (scan st) c of (s', v) \<Rightarrow>
        if v = ScanSkipSpace then indent_loop (st\<lparr>scan := s'\<rparr>) cs
        else if v = ScanError then st\<lparr>scan := s'\<rparr>
        else indent_loop (indent_emit (st\<lparr>scan := s'\<rparr>) v c) cs)"

text \<open>\<^verbatim>\<open>json.Indent(&buf, src, "", "  ")\<close>.\<close>

definition json_Indent :: "bytes \<Rightarrow> json_error + bytes" where
  "json_Indent src =
     (let st = indent_loop \<lparr>scan = newScanner, needIndent = False, depth = 0, dst = []\<rparr> src
      in if eof_error (scan st) then Inl SyntaxError else Inr (dst st))"

subsection \<open>The outside world, events and the process state\<close>

text \<open>
  What the outside answers to each external call of one run.  A \<open>string option\<close> is a
  Go \<^verbatim>\<open>error\<close>: \<open>None\<close> is \<^verbatim>\<open>nil\<close>, \<open>Some msg\<close> an error with that text.
  \<^item> \<open>environ\<close>, \<open>startdir\<close>: the environment and working directory at start;
  \<^item> \<open>dotenv\<close>: what \<^verbatim>\<open>godotenv.Load()\<close> finds: an error, or the pairs of \<^verbatim>\<open>.env\<close>;
  \<^item> \<open>now\<close>: the date of \<^verbatim>\<open>time.Now()\<close>;
  \<^item> \<open>query_row\<close>: for a query text, the error of \<^verbatim>\<open>QueryRow(..).Scan(&jsonData)\<close> or
    the scanned bytes, \<open>None\<close> for a database NULL (a nil slice);
  \<^item> \<open>run_cmd\<close>: for a command line, the combined output and the error of
    \<^verbatim>\<open>cmd.CombinedOutput()\<close>.
\<close>

record world =
  environ :: "string \<rightharpoonup> string"
  startdir :: string
  dotenv :: "string + (string \<rightharpoonup> string)"
  now :: date
  sql_open :: "string \<Rightarrow> string option"
  db_ping :: "string option"
  mkdir_all :: "string \<Rightarrow> string option"
  query_row :: "string \<Rightarrow> string + bytes option"
  write_file :: "string \<Rightarrow> bytes \<Rightarrow> string option"
  getwd :: "string option"
  chdir :: "string \<Rightarrow> string option"
  run_cmd :: "string \<Rightarrow> string list \<Rightarrow> bytes \<times> string option"

text \<open>The values built by the \<^verbatim>\<open>fmt.Errorf\<close> calls of the source.\<close>

datatype error =
    EnvFileError string
  | InvalidPort num_error
  | GetwdFailed string
  | ChdirFailed string
  | GitAddFailed string bytes
  | GitCommitFailed string bytes
  | GitPushFailed string bytes

text \<open>The lines written by the \<^verbatim>\<open>fmt.Printf\<close> and \<^verbatim>\<open>fmt.Println\<close> calls of the source.\<close>

datatype line =
    ErrorLoadingConfiguration error
  | ErrorConnecting string
  | ErrorPinging string
  | Connected
  | ErrorCreatingOutputDir string
  | ErrorQueryingView string string
  | ErrorAddingDate string json_error
  | ErrorFormatting string json_error
  | ErrorWritingFile string string
  | Exported string string
  | ErrorGit error
  | Completed
  | AddedFiles
  | NothingToCommit
  | Committed string
  | Pushed

datatype event =
    Print line
  | LoadDotenv
  | SqlOpen string
  | Ping
  | DbClose
  | MkdirAll string
  | QueryRow string
  | WriteFile string bytes
  | Getwd
  | Chdir string
  | Exec string "string list"

record proc =
  penv :: "string \<rightharpoonup> string"
  cwd :: string
  trace :: "event list"

definition emit :: "event \<Rightarrow> proc \<Rightarrow> proc" where
  "emit e s = s\<lparr>trace := trace s @ [e]\<rparr>"

definition say :: "line \<Rightarrow> proc \<Rightarrow> proc" where
  "say l s = emit (Print l) s"

text \<open>
  \<^verbatim>\<open>godotenv.Load()\<close> sets every variable of the file that the environment does not
  have yet; a variable that is already set keeps its value.
\<close>

definition godotenv_Load :: "world \<Rightarrow> proc \<Rightarrow> proc \<times> string option" where
  "godotenv_Load w s =
     (case dotenv w of
        Inl e \<Rightarrow> (emit LoadDotenv s, Some e)
      | Inr kv \<Rightarrow> (emit LoadDotenv (s\<lparr>penv := kv ++ penv s\<rparr>), None))"

text \<open>
  \<^verbatim>\<open>os.Chdir(dir)\<close>: on success the working directory is \<open>dir\<close>, taken from the
  current directory when it is relative.
\<close>

definition os_Chdir :: "world \<Rightarrow> string \<Rightarrow> proc \<Rightarrow> proc \<times> string option" where
  "os_Chdir w dir s =
     (case chdir w dir of
        Some e \<Rightarrow> (emit (Chdir dir) s, Some e)
      | None \<Rightarrow>
          (emit (Chdir dir)
             (s\<lparr>cwd := (if dir \<noteq> [] \<and> hd dir = CHR ''/'' then dir
                         else filepath_Join (cwd s) dir)\<rparr>), None))"

definition os_Getwd :: "world \<Rightarrow> proc \<Rightarrow> proc \<times> (string + string)" where
  "os_Getwd w s =
     (case getwd w of
        Some e \<Rightarrow> (emit Getwd s, Inl e)
      | None \<Rightarrow> (emit Getwd s, Inr (cwd s)))"

definition exec_CombinedOutput ::
  "world \<Rightarrow> string \<Rightarrow> string list \<Rightarrow> proc \<Rightarrow> proc \<times> bytes \<times> string option" where
  "exec_CombinedOutput w name args s = (emit (Exec name args) s, run_cmd w name args)"

subsection \<open>The program\<close>

record Config =
  Host :: string
  Port :: int
  User :: string
  Password :: string
  DBName :: string
  SSLMode :: string
  OutputDir :: string

definition getEnvWithDefault :: "(string \<rightharpoonup> string) \<Rightarrow> string \<Rightarrow> string \<Rightarrow> string" where
  "getEnvWithDefault env key defaultValue =
     (case env key of Some v \<Rightarrow> v | None \<Rightarrow> defaultValue)"

definition loadConfig :: "world \<Rightarrow> proc \<Rightarrow> proc \<times> (error + Config)" where
  "loadConfig w s =
     (case godotenv_Load w s of
        (s1, Some e) \<Rightarrow> (s1, Inl (EnvFileError e))
      | (s1, None) \<Rightarrow>
          (case strconv_Atoi (os_Getenv (penv s1) ''DB_PORT'') of
             Inl e \<Rightarrow> (s1, Inl (InvalidPort e))
           | Inr port \<Rightarrow>
               (s1, Inr \<lparr>Host = getEnvWithDefault (penv s1) ''DB_HOST'' ''localhost'',
                         Port = port,
                         User = getEnvWithDefault (penv s1) ''DB_USER'' ''postgres'',
                         Password = getEnvWithDefault (penv s1) ''DB_PASSWORD'' [],
                         DBName = getEnvWithDefault (penv s1) ''DB_NAME'' ''hospital_db'',
                         SSLMode = getEnvWithDefault (penv s1) ''DB_SSLMODE'' ''disable'',
                         OutputDir = getEnvWithDefault (penv s1) ''OUTPUT_DIR'' ''data_exports''\<rparr>)))"

text \<open>
  \<^verbatim>\<open>json.Marshal\<close> of the wrapper map: the keys in sorted order, the raw message
  compacted in place, the date quoted.
\<close>

definition addExportDateToJSON :: "bytes option \<Rightarrow> string \<Rightarrow> json_error + bytes" where
  "addExportDateToJSON data date =
     (case marshalRawMessage data of
        Inl e \<Rightarrow> Inl e
      | Inr raw \<Rightarrow>
          Inr (''{'' @ appendString ''data'' @ '':'' @ raw @ '','' @ appendString ''export_date''
               @ '':'' @ appendString date @ ''}''))"

text \<open>
  The body of \<^verbatim>\<open>gitCommitAndPush\<close> after the deferred \<^verbatim>\<open>os.Chdir(currentDir)\<close> has
  been registered: stage, commit, push.
\<close>

definition gitSteps :: "world \<Rightarrow> string \<Rightarrow> proc \<Rightarrow> proc \<times> error option" where
  "gitSteps w commitMessage s =
     (case exec_CombinedOutput w ''git'' [''add'', ''.''] s of
        (s1, out1, Some e) \<Rightarrow> (s1, Some (GitAddFailed e out1))
      | (s1, out1, None) \<Rightarrow>
          let s2 = say AddedFiles s1;
              commitMsg = ''Data export '' @ commitMessage
          in case exec_CombinedOutput w ''git'' [''commit'', ''-m'', commitMsg] s2 of
               (s3, out2, Some e) \<Rightarrow>
                 if \<not> bytes_Contains out2 ''nothing to commit''
                 then (s3, Some (GitCommitFailed e out2))
                 else (say NothingToCommit s3, None)
             | (s3, out2, None) \<Rightarrow>
                 let s4 = say (Committed commitMsg) s3
                 in case exec_CombinedOutput w ''git'' [''push''] s4 of
                      (s5, out3, Some e) \<Rightarrow> (s5, Some (GitPushFailed e out3))
                    | (s5, out3, None) \<Rightarrow> (say Pushed s5, None))"

definition gitCommitAndPush :: "world \<Rightarrow> string \<Rightarrow> string \<Rightarrow> proc \<Rightarrow> proc \<times> error option" where
  "gitCommitAndPush w repoPath commitMessage s =
     (case os_Getwd w s of
        (s1, Inl e) \<Rightarrow> (s1, Some (GetwdFailed e))
      | (s1, Inr currentDir) \<Rightarrow>
          (case os_Chdir w repoPath s1 of
             (s2, Some e) \<Rightarrow> (s2, Some (ChdirFailed e))
           | (s2, None) \<Rightarrow>
               (case gitSteps w commitMessage s2 of
                  (s3, r) \<Rightarrow> (fst (os_Chdir w currentDir s3), r))))"

definition views :: "string list" where
  "views = [''hospital_seven_avg_change'', ''daily_wait_time_stats'', ''monthly_avg_wait_times'']"

text \<open>One round of the loop over the views; every \<^verbatim>\<open>continue\<close> ends the round.\<close>

definition exportView :: "world \<Rightarrow> Config \<Rightarrow> string \<Rightarrow> string \<Rightarrow> proc \<Rightarrow> proc" where
  "exportView w config currentDate view s =
     (let query = ''SELECT json_agg(t) FROM (SELECT * FROM '' @ view @ '') t'';
          s1 = emit (QueryRow query) s
      in case query_row w query of
           Inl e \<Rightarrow> say (ErrorQueryingView view e) s1
         | Inr scanned \<Rightarrow>
             let jsonData = (case scanned of None \<Rightarrow> Some ''[]'' | Some b \<Rightarrow> Some b)
             in case addExportDateToJSON jsonData currentDate of
                  Inl e \<Rightarrow> say (ErrorAddingDate view e) s1
                | Inr wrapped \<Rightarrow>
                    (case json_Indent wrapped of
                       Inl e \<Rightarrow> say (ErrorFormatting view e) s1
                     | Inr prettyJSON \<Rightarrow>
                         let filename = filepath_Join (OutputDir config) (view @ ''.json'');
                             s2 = emit (WriteFile filename prettyJSON) s1
                         in case write_file w filename prettyJSON of
                              Some e \<Rightarrow> say (ErrorWritingFile filename e) s2
                            | None \<Rightarrow> say (Exported view filename) s2))"

fun exportViews :: "world \<Rightarrow> Config \<Rightarrow> string \<Rightarrow> string list \<Rightarrow> proc \<Rightarrow> proc" where
  "exportViews w config currentDate [] s = s"
| "exportViews w config currentDate (view # rest) s =
     exportViews w config currentDate rest (exportView w config currentDate view s)"

definition connStr :: "Config \<Rightarrow> string" where
  "connStr config =
     ''host='' @ Host config @ '' port='' @ string_of_int (Port config) @ '' user='' @ User config
     @ '' password='' @ Password config @ '' dbname='' @ DBName config
     @ '' sslmode='' @ SSLMode config"

text \<open>
  How a call of \<^verbatim>\<open>main\<close> ends.  A \<^verbatim>\<open>return\<close> statement, or running off the end of
  the function, is \<open>Returned\<close>: the Go runtime then exits with status 0.  A call of
  \<^verbatim>\<open>os.Exit(n)\<close> (or of \<^verbatim>\<open>log.Fatal\<close>, which exits with 1) would be \<open>Exited n\<close>.
\<close>

datatype ending = Returned | Exited int

definition exit_status :: "ending \<Rightarrow> int" where
  "exit_status e = (case e of Returned \<Rightarrow> 0 | Exited n \<Rightarrow> n)"

text \<open>
  The part of \<^verbatim>\<open>main\<close> that runs between \<^verbatim>\<open>defer db.Close()\<close> and its return, with
  the way each of its paths ends.
\<close>

definition mainConnected :: "world \<Rightarrow> Config \<Rightarrow> proc \<Rightarrow> proc \<times> ending" where
  "mainConnected w config s =
     (let s1 = emit Ping s
      in case db_ping w of
           Some e \<Rightarrow> (say (ErrorPinging e) s1, Returned)
         | None \<Rightarrow>
             let s2 = emit (MkdirAll (OutputDir config)) (say Connected s1)
             in case mkdir_all w (OutputDir config) of
                  Some e \<Rightarrow> (say (ErrorCreatingOutputDir e) s2, Returned)
                | None \<Rightarrow>
                    let currentDate = time_Format (now w);
                        s3 = exportViews w config currentDate views s2
                    in case gitCommitAndPush w (OutputDir config) currentDate s3 of
                         (s4, Some e) \<Rightarrow> (say (ErrorGit e) s4, Returned)
                       | (s4, None) \<Rightarrow> (say Completed s4, Returned))"

definition main :: "world \<Rightarrow> proc \<Rightarrow> proc \<times> ending" where
  "main w s =
     (case loadConfig w s of
        (s1, Inl e) \<Rightarrow> (say (ErrorLoadingConfiguration e) s1, Returned)
      | (s1, Inr config) \<Rightarrow>
          let s2 = emit (SqlOpen (connStr config)) s1
          in case sql_open w (connStr config) of
               Some e \<Rightarrow> (say (ErrorConnecting e) s2, Returned)
             | None \<Rightarrow>
                 (case mainConnected w config s2 of
                    (s3, ending) \<Rightarrow> (emit DbClose s3, ending)))"

definition initial :: "world \<Rightarrow> proc" where
  "initial w = \<lparr>penv = environ w, cwd = startdir w, trace = []\<rparr>"

text \<open>A run of the program: \<^verbatim>\<open>main\<close> started in the initial process state.\<close>

definition run :: "world \<Rightarrow> proc \<times> ending" where
  "run w = main w (initial w)"

subsection \<open>Reading a trace\<close>

text \<open>The command lines run by \<^verbatim>\<open>exec.Command\<close>, in order.\<close>

fun commands :: "event list \<Rightarrow> string list list" where
  "commands [] = []"
| "commands (Exec name args # t) = (name # args) # commands t"
| "commands (e # t) = commands t"

text \<open>The lines printed, in order.\<close>

fun printed :: "event list \<Rightarrow> line list" where
  "printed [] = []"
| "printed (Print l # t) = l # printed t"
| "printed (e # t) = printed t"

text \<open>The files handed to \<^verbatim>\<open>os.WriteFile\<close>, in order.\<close>

fun writes :: "event list \<Rightarrow> (string \<times> bytes) list" where
  "writes [] = []"
| "writes (WriteFile f c # t) = (f, c) # writes t"
| "writes (e # t) = writes t"

definition isAbs :: "string \<Rightarrow> bool" where
  "isAbs p = (p \<noteq> [] \<and> hd p = CHR ''/'')"

subsection \<open>Sample worlds\<close>

text \<open>A run in which every external call succeeds and every view is empty.\<close>

definition calm :: world where
  "calm = \<lparr>environ = [''DB_PORT'' \<mapsto> ''5432''], startdir = ''/srv/exporter'',
            dotenv = Inr Map.empty, now = \<lparr>year = 2024, month = 3, day = 7\<rparr>,
            sql_open = (\<lambda>_. None), db_ping = None, mkdir_all = (\<lambda>_. None),
            query_row = (\<lambda>_. Inr None), write_file = (\<lambda>_ _. None), getwd = None,
            chdir = (\<lambda>_. None), run_cmd = (\<lambda>_ _. ([], None))\<rparr>"

definition start :: proc where
  "start = \<lparr>penv = [''DB_PORT'' \<mapsto> ''5432''], cwd = ''/srv/exporter'', trace = []\<rparr>"

text \<open>What git answers when the tree is clean: exit status 1 and this text.\<close>

definition cleanTree :: bytes where
  "cleanTree = ''On branch main'' @ [CHR 0x0A] @ ''nothing to commit, working tree clean'' @ [CHR 0x0A]"

definition nothingToCommit :: world where
  "nothingToCommit =
     calm\<lparr>run_cmd := (\<lambda>name args. if take 1 args = [''commit'']
                                   then (cleanTree, Some ''exit status 1'') else ([], None))\<rparr>"

text \<open>A commit that fails for another reason: no author identity is configured.\<close>

definition noIdentity :: world where
  "noIdentity =
     calm\<lparr>run_cmd := (\<lambda>name args. if take 1 args = [''commit'']
                                   then (''fatal: unable to auto-detect email address'',
                                         Some ''exit status 128'')
                                   else ([], None))\<rparr>"

text \<open>The directory the program was started in can no longer be entered.\<close>

definition lostStartDir :: world where
  "lostStartDir =
     calm\<lparr>chdir := (\<lambda>dir. if dir = ''/srv/exporter'' then Some ''no such file or directory''
                            else None)\<rparr>"

text \<open>The environment the program reads once \<^verbatim>\<open>godotenv.Load()\<close> has run.\<close>

definition effective_env :: "world \<Rightarrow> (string \<rightharpoonup> string)" where
  "effective_env w = (case dotenv w of Inl e \<Rightarrow> environ w | Inr kv \<Rightarrow> kv ++ environ w)"

text \<open>Worlds for the configuration and start-up paths.\<close>

definition noPort :: world where
  "noPort = calm\<lparr>environ := Map.empty\<rparr>"

definition badPort :: world where
  "badPort = calm\<lparr>environ := [''DB_PORT'' \<mapsto> ''5432/tcp'']\<rparr>"

definition noDotenv :: world where
  "noDotenv = calm\<lparr>dotenv := Inl ''open .env: no such file or directory''\<rparr>"

definition hostFromFile :: world where
  "hostFromFile = calm\<lparr>dotenv := Inr [''DB_HOST'' \<mapsto> ''db.internal'', ''DB_PORT'' \<mapsto> ''6543'']\<rparr>"

definition pingFails :: world where
  "pingFails = calm\<lparr>db_ping := Some ''connection refused''\<rparr>"

text \<open>
  What one round of the loop over the views does on its own: the events of
  \<open>exportView\<close> started with an empty trace.
\<close>

definition viewTrace :: "world \<Rightarrow> Config \<Rightarrow> string \<Rightarrow> string \<Rightarrow> event list" where
  "viewTrace w config currentDate view =
     trace (exportView w config currentDate view \<lparr>penv = Map.empty, cwd = [], trace = []\<rparr>)"

definition queryOf :: "string \<Rightarrow> string" where
  "queryOf view = ''SELECT json_agg(t) FROM (SELECT * FROM '' @ view @ '') t''"

definition defaultConfig :: Config where
  "defaultConfig = \<lparr>Host = ''localhost'', Port = 5432, User = ''postgres'', Password = [],
                     DBName = ''hospital_db'', SSLMode = ''disable'', OutputDir = ''data_exports''\<rparr>"

text \<open>The query of the second view fails; the other two views are empty.\<close>

definition secondViewFails :: world where
  "secondViewFails =
     calm\<lparr>query_row := (\<lambda>q. if q = queryOf ''daily_wait_time_stats''
                               then Inl ''pq: relation does not exist'' else Inr None)\<rparr>"

text \<open>The document written for an empty view on 7 March 2024.\<close>

definition emptySnapshot :: bytes where
  "emptySnapshot =
     ''{'' @ [CHR 0x0A] @ ''  \"data\": [],'' @ [CHR 0x0A] @ ''  \"export_date\": \"2024-03-07\"''
     @ [CHR 0x0A] @ ''}''"

text \<open>The bytes a formatted date is made of: decimal digits and the minus sign.\<close>

definition plainChar :: "char \<Rightarrow> bool" where
  "plainChar c = (isDigit c \<or> c = CHR ''-'')"

text \<open>The snapshot written for a view without rows, for a given date stamp.\<close>

definition emptyDocument :: "string \<Rightarrow> bytes" where
  "emptyDocument currentDate =
     ''{'' @ [CHR 0x0A] @ ''  \"data\": [],'' @ [CHR 0x0A] @ ''  \"export_date\": \"'' @ currentDate
     @ ''\"'' @ [CHR 0x0A] @ ''}''"

text \<open>A path element that \<^verbatim>\<open>filepath.Clean\<close> keeps as it is.\<close>

definition realElem :: "string \<Rightarrow> bool" where
  "realElem name = (name \<noteq> [] \<and> CHR ''/'' \<notin> set name \<and> name \<noteq> ''.'' \<and> name \<noteq> ''..'')"

text \<open>What \<^verbatim>\<open>filepath.Join(dir, name)\<close> puts in front of a real element \<open>name\<close>.\<close>

definition joinPrefix :: "string \<Rightarrow> string" where
  "joinPrefix dir =
     (if dir = [] then []
      else let rooted = (hd dir = CHR ''/'');
               stack = foldl (clean_elem rooted) [] (split_slash dir [])
           in (if rooted then ''/'' else []) @ (if stack = [] then [] else join_slash (rev stack) @ ''/''))"

subsection \<open>Reading the scanner\<close>

text \<open>
  A scanner is consistent when the error state goes with the recorded error, as
  \<^verbatim>\<open>scanner.error\<close> sets them together.
\<close>

definition consistent :: "scanner \<Rightarrow> bool" where
  "consistent s = (step s = StError \<longrightarrow> failed s)"

text \<open>
  What every step of a consistent scanner guarantees: a recorded error stays, the scanner
  stays consistent, \<^verbatim>\<open>scanError\<close> records an error, \<^verbatim>\<open>scanSkipSpace\<close> is only answered
  on a space, and \<^verbatim>\<open>scanEnd\<close> on anything else records an error.
\<close>

definition stepOK :: "scanner \<Rightarrow> char \<Rightarrow> scanner \<times> opcode \<Rightarrow> bool" where
  "stepOK s c r = ((failed s \<longrightarrow> failed (fst r)) \<and> consistent (fst r) \<and>
       (snd r = ScanError \<longrightarrow> failed (fst r)) \<and>
       (snd r = ScanSkipSpace \<longrightarrow> isSpace c) \<and>
       (snd r = ScanEnd \<and> \<not> failed (fst r) \<longrightarrow> isSpace c))"


text \<open>The bytes outside the JSON white space.\<close>

definition inked :: "bytes \<Rightarrow> bytes" where
  "inked bs = filter (\<lambda>c. \<not> isSpace c) bs"




text \<open>Worlds in which the Publisher fails: the push is rejected, staging fails.\<close>

definition pushRejected :: world where
  "pushRejected =
     calm\<lparr>run_cmd := (\<lambda>name args. if args = [''push'']
                                   then (''! [rejected] main -> main (fetch first)'',
                                         Some ''exit status 1'')
                                   else ([], None))\<rparr>"

definition notARepository :: world where
  "notARepository =
     calm\<lparr>run_cmd := (\<lambda>name args. (''fatal: not a git repository'', Some ''exit status 128''))\<rparr>"

text \<open>A world with two failures: the second view cannot be queried and the push is rejected.\<close>

definition viewAndPushFail :: world where
  "viewAndPushFail = secondViewFails\<lparr>run_cmd := run_cmd pushRejected\<rparr>"

section \<open>Properties\<close>

subsection \<open>Traces\<close>

lemma commands_append: "commands (xs @ ys) = commands xs @ commands ys"
  by (induction xs rule: commands.induct) auto

lemma printed_append: "printed (xs @ ys) = printed xs @ printed ys"
  by (induction xs rule: printed.induct) auto

lemma writes_append: "writes (xs @ ys) = writes xs @ writes ys"
  by (induction xs rule: writes.induct) auto

lemma is_prefix_iff: "is_prefix xs ys \<longleftrightarrow> (\<exists>q. ys = xs @ q)"
  by (induction xs ys rule: is_prefix.induct) auto

lemma bytes_Contains_iff: "bytes_Contains b sub \<longleftrightarrow> (\<exists>p q. b = p @ sub @ q)"
proof (induction b)
  case Nil
  then show ?case by auto
next
  case (Cons x xs)
  show ?case
  proof
    assume "bytes_Contains (x # xs) sub"
    then consider "is_prefix sub (x # xs)" | "bytes_Contains xs sub" by auto
    then show "\<exists>p q. x # xs = p @ sub @ q"
    proof cases
      case 1
      then obtain q where "x # xs = sub @ q" by (auto simp: is_prefix_iff)
      then have "x # xs = [] @ sub @ q" by simp
      then show ?thesis by blast
    next
      case 2
      with Cons obtain p q where "xs = p @ sub @ q" by blast
      then have "x # xs = (x # p) @ sub @ q" by simp
      then show ?thesis by blast
    qed
  next
    assume "\<exists>p q. x # xs = p @ sub @ q"
    then obtain p q where pq: "x # xs = p @ sub @ q" by blast
    show "bytes_Contains (x # xs) sub"
    proof (cases p)
      case Nil
      with pq have "is_prefix sub (x # xs)" by (auto simp: is_prefix_iff)
      then show ?thesis by simp
    next
      case (Cons a p')
      with pq have "xs = p' @ sub @ q" by simp
      with Cons.IH have "bytes_Contains xs sub" by blast
      then show ?thesis by simp
    qed
  qed
qed

subsection \<open>The Version-Control Publisher\<close>

lemma gitSteps_frame:
  "cwd (fst (gitSteps w m s)) = cwd s \<and> penv (fst (gitSteps w m s)) = penv s"
  by (auto simp: gitSteps_def exec_CombinedOutput_def emit_def say_def Let_def
           split: prod.splits option.splits)

lemma gitSteps_commands:
  "commands (trace (fst (gitSteps w m s))) = commands (trace s) @
     (if snd (run_cmd w ''git'' [''add'', ''.'']) \<noteq> None then [[''git'', ''add'', ''.'']]
      else if snd (run_cmd w ''git'' [''commit'', ''-m'', ''Data export '' @ m]) \<noteq> None
        then [[''git'', ''add'', ''.''], [''git'', ''commit'', ''-m'', ''Data export '' @ m]]
      else [[''git'', ''add'', ''.''], [''git'', ''commit'', ''-m'', ''Data export '' @ m],
            [''git'', ''push'']])"
  by (auto simp: gitSteps_def exec_CombinedOutput_def emit_def say_def Let_def commands_append
           split: prod.splits option.splits)

lemma gitSteps_commit_failed:
  assumes "run_cmd w ''git'' [''add'', ''.''] = (out1, None)"
    and "run_cmd w ''git'' [''commit'', ''-m'', ''Data export '' @ m] = (out2, Some e)"
  shows "snd (gitSteps w m s) =
           (if bytes_Contains out2 ''nothing to commit'' then None
            else Some (GitCommitFailed e out2))"
  using assms by (simp add: gitSteps_def exec_CombinedOutput_def Let_def)

lemma os_Chdir_snd: "snd (os_Chdir w d s) = chdir w d"
  by (simp add: os_Chdir_def split: option.splits)

lemma gitCommitAndPush_entered:
  assumes "getwd w = None" and "chdir w repoPath = None"
  shows "gitCommitAndPush w repoPath m s =
           (fst (os_Chdir w (cwd s)
                   (fst (gitSteps w m (fst (os_Chdir w repoPath (emit Getwd s)))))),
            snd (gitSteps w m (fst (os_Chdir w repoPath (emit Getwd s)))))"
proof -
  obtain s2 r2 where c: "os_Chdir w repoPath (emit Getwd s) = (s2, r2)"
    by (cases "os_Chdir w repoPath (emit Getwd s)")
  have "r2 = None"
    using os_Chdir_snd [of w repoPath "emit Getwd s"] c assms(2) by simp
  with c assms(1) show ?thesis
    by (simp add: gitCommitAndPush_def os_Getwd_def emit_def split: prod.splits)
qed

lemma os_Chdir_commands: "commands (trace (fst (os_Chdir w d s))) = commands (trace s)"
  by (simp add: os_Chdir_def emit_def commands_append split: option.splits)

lemma gitCommitAndPush_commands:
  "commands (trace (fst (gitCommitAndPush w repoPath m s))) = commands (trace s) @
     (if getwd w \<noteq> None \<or> chdir w repoPath \<noteq> None then []
      else if snd (run_cmd w ''git'' [''add'', ''.'']) \<noteq> None then [[''git'', ''add'', ''.'']]
      else if snd (run_cmd w ''git'' [''commit'', ''-m'', ''Data export '' @ m]) \<noteq> None
        then [[''git'', ''add'', ''.''], [''git'', ''commit'', ''-m'', ''Data export '' @ m]]
      else [[''git'', ''add'', ''.''], [''git'', ''commit'', ''-m'', ''Data export '' @ m],
            [''git'', ''push'']])"
proof (cases "getwd w \<noteq> None \<or> chdir w repoPath \<noteq> None")
  case True
  then show ?thesis
    by (auto simp: gitCommitAndPush_def os_Getwd_def os_Chdir_def emit_def commands_append
             split: prod.splits option.splits)
next
  case False
  then have ok: "getwd w = None" "chdir w repoPath = None" by auto
  have "commands (trace (fst (os_Chdir w repoPath (emit Getwd s)))) = commands (trace s)"
    by (simp add: os_Chdir_commands) (simp add: emit_def commands_append)
  with ok show ?thesis
    by (simp only: gitCommitAndPush_entered [OF ok] fst_conv os_Chdir_commands
                   gitSteps_commands) simp
qed

lemmas publisher_defs = gitCommitAndPush_def gitSteps_def os_Getwd_def os_Chdir_def
  exec_CombinedOutput_def emit_def say_def Let_def

text \<open>
  C1, as stated, fails: when \<^verbatim>\<open>git commit\<close> exits with an error and its output contains
  \<^verbatim>\<open>nothing to commit\<close>, the Publisher prints that there is nothing to commit and
  returns \<^verbatim>\<open>nil\<close> at once; \<^verbatim>\<open>git push\<close> is not run.
\<close>

theorem nothing_to_commit_skips_push:
  "snd (gitCommitAndPush nothingToCommit ''data_exports'' ''2024-03-07'' start) = None \<and>
   printed (trace (fst (gitCommitAndPush nothingToCommit ''data_exports'' ''2024-03-07'' start)))
     = [AddedFiles, NothingToCommit] \<and>
   commands (trace (fst (gitCommitAndPush nothingToCommit ''data_exports'' ''2024-03-07'' start)))
     = [[''git'', ''add'', ''.''], [''git'', ''commit'', ''-m'', ''Data export 2024-03-07'']]"
  by (simp add: publisher_defs nothingToCommit_def calm_def start_def cleanTree_def)

text \<open>
  C1, amended.  The commands the Publisher runs are, in this order, \<^verbatim>\<open>git add .\<close>,
  \<^verbatim>\<open>git commit -m "Data export <date>"\<close> and \<^verbatim>\<open>git push\<close>: none when the working
  directory cannot be read or changed, the commit exactly when staging succeeded, the push
  exactly when the commit command itself exited without error.  A commit that fails with
  \<^verbatim>\<open>nothing to commit\<close> in its output ends the Publisher with \<^verbatim>\<open>nil\<close> and, being
  a failed command, without a push.
\<close>

theorem publisher_step_order:
  "commands (trace (fst (gitCommitAndPush w repoPath m s))) = commands (trace s) @
     (if getwd w \<noteq> None \<or> chdir w repoPath \<noteq> None then []
      else if snd (run_cmd w ''git'' [''add'', ''.'']) \<noteq> None then [[''git'', ''add'', ''.'']]
      else if snd (run_cmd w ''git'' [''commit'', ''-m'', ''Data export '' @ m]) \<noteq> None
        then [[''git'', ''add'', ''.''], [''git'', ''commit'', ''-m'', ''Data export '' @ m]]
      else [[''git'', ''add'', ''.''], [''git'', ''commit'', ''-m'', ''Data export '' @ m],
            [''git'', ''push'']]) \<and>
   (getwd w = None \<and> chdir w repoPath = None \<and> snd (run_cmd w ''git'' [''add'', ''.'']) = None \<and>
    snd (run_cmd w ''git'' [''commit'', ''-m'', ''Data export '' @ m]) \<noteq> None \<and>
    bytes_Contains (fst (run_cmd w ''git'' [''commit'', ''-m'', ''Data export '' @ m]))
      ''nothing to commit''
    \<longrightarrow> snd (gitCommitAndPush w repoPath m s) = None)"
proof (intro conjI impI)
  show "commands (trace (fst (gitCommitAndPush w repoPath m s))) = commands (trace s) @
     (if getwd w \<noteq> None \<or> chdir w repoPath \<noteq> None then []
      else if snd (run_cmd w ''git'' [''add'', ''.'']) \<noteq> None then [[''git'', ''add'', ''.'']]
      else if snd (run_cmd w ''git'' [''commit'', ''-m'', ''Data export '' @ m]) \<noteq> None
        then [[''git'', ''add'', ''.''], [''git'', ''commit'', ''-m'', ''Data export '' @ m]]
      else [[''git'', ''add'', ''.''], [''git'', ''commit'', ''-m'', ''Data export '' @ m],
            [''git'', ''push'']])"
    by (rule gitCommitAndPush_commands)
next
  assume a: "getwd w = None \<and> chdir w repoPath = None \<and>
    snd (run_cmd w ''git'' [''add'', ''.'']) = None \<and>
    snd (run_cmd w ''git'' [''commit'', ''-m'', ''Data export '' @ m]) \<noteq> None \<and>
    bytes_Contains (fst (run_cmd w ''git'' [''commit'', ''-m'', ''Data export '' @ m]))
      ''nothing to commit''"
  then obtain out1 out2 e where
    r: "run_cmd w ''git'' [''add'', ''.''] = (out1, None)"
       "run_cmd w ''git'' [''commit'', ''-m'', ''Data export '' @ m] = (out2, Some e)"
    by (cases "run_cmd w ''git'' [''add'', ''.'']";
        cases "run_cmd w ''git'' [''commit'', ''-m'', ''Data export '' @ m]") auto
  from a have ok: "getwd w = None" "chdir w repoPath = None" by simp_all
  from a r have "bytes_Contains out2 ''nothing to commit''" by simp
  then show "snd (gitCommitAndPush w repoPath m s) = None"
    by (simp only: gitCommitAndPush_entered [OF ok] snd_conv gitSteps_commit_failed [OF r]) simp
qed

theorem publisher_step_order_witness:
  "commands (trace (fst (gitCommitAndPush calm ''data_exports'' ''2024-03-07'' start))) =
     [[''git'', ''add'', ''.''], [''git'', ''commit'', ''-m'', ''Data export 2024-03-07''],
      [''git'', ''push'']] \<and>
   snd (gitCommitAndPush nothingToCommit ''data_exports'' ''2024-03-07'' start) = None"
proof -
  have c: "bytes_Contains cleanTree ''nothing to commit''"
    by (simp add: cleanTree_def)
  show ?thesis
    using publisher_step_order [of calm "''data_exports''" "''2024-03-07''" start]
          publisher_step_order [of nothingToCommit "''data_exports''" "''2024-03-07''" start] c
    by (simp add: calm_def start_def nothingToCommit_def)
qed

text \<open>
  C10.  When staging succeeded and the commit command fails, the Publisher returns no error
  if and only if the combined output of the command contains the bytes
  \<^verbatim>\<open>nothing to commit\<close>; otherwise it returns the commit failure.  In both cases no
  push is run: the commit is the last command.
\<close>

theorem commit_failure_classified_by_output:
  assumes "getwd w = None" and "chdir w repoPath = None"
    and "run_cmd w ''git'' [''add'', ''.''] = (out1, None)"
    and "run_cmd w ''git'' [''commit'', ''-m'', ''Data export '' @ m] = (out2, Some e)"
  shows "(snd (gitCommitAndPush w repoPath m s) = None
            \<longleftrightarrow> (\<exists>p q. out2 = p @ ''nothing to commit'' @ q)) \<and>
         ((\<nexists>p q. out2 = p @ ''nothing to commit'' @ q)
            \<longrightarrow> snd (gitCommitAndPush w repoPath m s) = Some (GitCommitFailed e out2)) \<and>
         commands (trace (fst (gitCommitAndPush w repoPath m s))) = commands (trace s) @
           [[''git'', ''add'', ''.''], [''git'', ''commit'', ''-m'', ''Data export '' @ m]]"
proof -
  have r: "snd (gitCommitAndPush w repoPath m s) =
             (if bytes_Contains out2 ''nothing to commit'' then None
              else Some (GitCommitFailed e out2))"
    by (simp only: gitCommitAndPush_entered [OF assms(1,2)] snd_conv
                   gitSteps_commit_failed [OF assms(3,4)])
  have c: "commands (trace (fst (gitCommitAndPush w repoPath m s))) = commands (trace s) @
           [[''git'', ''add'', ''.''], [''git'', ''commit'', ''-m'', ''Data export '' @ m]]"
    using assms by (simp add: gitCommitAndPush_commands)
  show ?thesis using r c by (simp add: bytes_Contains_iff)
qed

theorem commit_failure_classified_by_output_witness:
  "snd (gitCommitAndPush noIdentity ''data_exports'' ''2024-03-07'' start)
     = Some (GitCommitFailed ''exit status 128'' ''fatal: unable to auto-detect email address'') \<and>
   commands (trace (fst (gitCommitAndPush noIdentity ''data_exports'' ''2024-03-07'' start)))
     = [[''git'', ''add'', ''.''], [''git'', ''commit'', ''-m'', ''Data export 2024-03-07'']]"
proof -
  have a: "getwd noIdentity = None" "chdir noIdentity ''data_exports'' = None"
    "run_cmd noIdentity ''git'' [''add'', ''.''] = ([], None)"
    "run_cmd noIdentity ''git'' [''commit'', ''-m'', ''Data export '' @ ''2024-03-07'']
       = (''fatal: unable to auto-detect email address'', Some ''exit status 128'')"
    by (simp_all add: noIdentity_def calm_def)
  have n: "\<not> bytes_Contains ''fatal: unable to auto-detect email address'' ''nothing to commit''"
    by simp
  show ?thesis
    using commit_failure_classified_by_output [OF a, of start] n
    by (simp add: bytes_Contains_iff start_def)
qed

text \<open>
  C6.  The Publisher does not restore the working directory on every exit path.  The
  source says of \<^verbatim>\<open>defer os.Chdir(currentDir)\<close> that it returns to the original directory
  when the function completes, but the deferred call can fail like the \<^verbatim>\<open>os.Chdir\<close> three
  lines above it, whose error is checked, and its own error is dropped.  In the world
  \<open>lostStartDir\<close> every git step succeeds and the directory the program started in,
  \<^verbatim>\<open>/srv/exporter\<close>, cannot be entered again: the Publisher returns \<^verbatim>\<open>nil\<close> with the
  process still in \<^verbatim>\<open>/srv/exporter/data_exports\<close>.
\<close>

theorem directory_not_restored_when_chdir_back_fails:
  "snd (gitCommitAndPush lostStartDir ''data_exports'' ''2024-03-07'' start) = None \<and>
   cwd start = ''/srv/exporter'' \<and>
   cwd (fst (gitCommitAndPush lostStartDir ''data_exports'' ''2024-03-07'' start))
     = ''/srv/exporter/data_exports''"
  apply (simp add: publisher_defs lostStartDir_def calm_def start_def)
  apply code_simp
  done

text \<open>
  What the Publisher does ensure once it has changed into the output repository: on
  every exit path (success, nothing to commit, staging, commit or push failure) its last
  action is \<^verbatim>\<open>os.Chdir\<close> back to the directory it started from; the environment
  variables are left as they were; and if that last call succeeds (the original
  directory being an absolute path, as \<^verbatim>\<open>os.Getwd\<close> returns it) the working directory
  is the original one again.
\<close>

lemma publisher_restores_directory:
  assumes "getwd w = None" and "chdir w repoPath = None"
  shows "last (trace (fst (gitCommitAndPush w repoPath m s))) = Chdir (cwd s) \<and>
         penv (fst (gitCommitAndPush w repoPath m s)) = penv s \<and>
         (isAbs (cwd s) \<and> chdir w (cwd s) = None
            \<longrightarrow> cwd (fst (gitCommitAndPush w repoPath m s)) = cwd s)"
proof -
  let ?s3 = "fst (gitSteps w m (fst (os_Chdir w repoPath (emit Getwd s))))"
  have p: "penv ?s3 = penv s"
    by (simp add: gitSteps_frame) (simp add: os_Chdir_def emit_def split: option.splits)
  have "fst (gitCommitAndPush w repoPath m s) = fst (os_Chdir w (cwd s) ?s3)"
    by (simp only: gitCommitAndPush_entered [OF assms] fst_conv)
  then show ?thesis using p
    by (auto simp: os_Chdir_def emit_def isAbs_def split: option.splits)
qed

lemma publisher_restores_directory_calm:
  "last (trace (fst (gitCommitAndPush calm ''data_exports'' ''2024-03-07'' start)))
     = Chdir ''/srv/exporter'' \<and>
   cwd (fst (gitCommitAndPush calm ''data_exports'' ''2024-03-07'' start)) = ''/srv/exporter''"
proof -
  have a: "getwd calm = None" "chdir calm ''data_exports'' = None"
    by (simp_all add: calm_def)
  have b: "isAbs (cwd start) \<and> chdir calm (cwd start) = None"
    by (simp add: isAbs_def start_def calm_def)
  show ?thesis
    using publisher_restores_directory [OF a, of "''2024-03-07''" start] b
    by (simp add: start_def)
qed

subsection \<open>Configuration and the paths of main\<close>

lemma printed_say [simp]: "printed (trace (say l s)) = printed (trace s) @ [l]"
  by (simp add: say_def emit_def printed_append)

lemma printed_emit_DbClose [simp]: "printed (trace (emit DbClose s)) = printed (trace s)"
  by (simp add: emit_def printed_append)

lemma loadConfig_initial:
  "loadConfig w (initial w) =
     (case dotenv w of
        Inl e \<Rightarrow> (\<lparr>penv = environ w, cwd = startdir w, trace = [LoadDotenv]\<rparr>, Inl (EnvFileError e))
      | Inr kv \<Rightarrow>
          (\<lparr>penv = effective_env w, cwd = startdir w, trace = [LoadDotenv]\<rparr>,
           case strconv_Atoi (os_Getenv (effective_env w) ''DB_PORT'') of
             Inl e \<Rightarrow> Inl (InvalidPort e)
           | Inr port \<Rightarrow>
               Inr \<lparr>Host = getEnvWithDefault (effective_env w) ''DB_HOST'' ''localhost'',
                    Port = port,
                    User = getEnvWithDefault (effective_env w) ''DB_USER'' ''postgres'',
                    Password = getEnvWithDefault (effective_env w) ''DB_PASSWORD'' [],
                    DBName = getEnvWithDefault (effective_env w) ''DB_NAME'' ''hospital_db'',
                    SSLMode = getEnvWithDefault (effective_env w) ''DB_SSLMODE'' ''disable'',
                    OutputDir = getEnvWithDefault (effective_env w) ''OUTPUT_DIR'' ''data_exports''\<rparr>))"
  by (simp add: loadConfig_def godotenv_Load_def initial_def emit_def effective_env_def
           split: sum.splits)

lemma main_config_error:
  "snd (loadConfig w s) = Inl e \<Longrightarrow>
     fst (main w s) = say (ErrorLoadingConfiguration e) (fst (loadConfig w s))"
  by (cases "loadConfig w s") (simp add: main_def)

lemma strconv_Atoi_empty: "strconv_Atoi [] = Inl ErrSyntax"
  by (simp add: strconv_Atoi_def)

text \<open>
  C2.  When \<^verbatim>\<open>DB_PORT\<close> is absent from the environment the program reads, or its
  value is not accepted by \<^verbatim>\<open>strconv.Atoi\<close>, the whole run consists of loading the
  settings file and printing a configuration error: no database connection is opened, no
  directory is created and no file is written.
\<close>

theorem invalid_port_is_configuration_error:
  assumes "effective_env w ''DB_PORT'' = None \<or>
           (\<exists>v e. effective_env w ''DB_PORT'' = Some v \<and> strconv_Atoi v = Inl e)"
  shows "\<exists>e. trace (fst (run w)) = [LoadDotenv, Print (ErrorLoadingConfiguration e)]"
proof -
  from assms obtain ne where ne: "strconv_Atoi (os_Getenv (effective_env w) ''DB_PORT'') = Inl ne"
    by (auto simp: os_Getenv_def strconv_Atoi_empty)
  then obtain e where e: "snd (loadConfig w (initial w)) = Inl e"
    by (cases "dotenv w") (simp_all add: loadConfig_initial)
  have "trace (fst (loadConfig w (initial w))) = [LoadDotenv]"
    by (simp add: loadConfig_initial split: sum.splits)
  with e have "trace (fst (run w)) = [LoadDotenv, Print (ErrorLoadingConfiguration e)]"
    by (simp add: run_def main_config_error say_def emit_def)
  then show ?thesis by blast
qed

theorem invalid_port_is_configuration_error_witness:
  "(\<exists>e. trace (fst (run noPort)) = [LoadDotenv, Print (ErrorLoadingConfiguration e)]) \<and>
   (\<exists>e. trace (fst (run badPort)) = [LoadDotenv, Print (ErrorLoadingConfiguration e)])"
proof -
  have a: "effective_env noPort ''DB_PORT'' = None"
    by (simp add: effective_env_def noPort_def calm_def)
  have "strconv_Atoi ''5432/tcp'' = Inl ErrSyntax"
    by (simp add: strconv_Atoi_def isDigit_def ord_def)
  then have b: "\<exists>v e. effective_env badPort ''DB_PORT'' = Some v \<and> strconv_Atoi v = Inl e"
    by (simp add: effective_env_def badPort_def calm_def)
  show ?thesis
    using invalid_port_is_configuration_error [of noPort]
          invalid_port_is_configuration_error [of badPort] a b by blast
qed


text \<open>
  C8.  A settings file that cannot be loaded is a configuration error that ends the run.
  Otherwise, with a port that parses, the Configuration Loader returns the record whose
  fields other than the port are read with \<^verbatim>\<open>getEnvWithDefault\<close> and the documented
  defaults; the environment read is the process environment completed by the settings
  file; and \<^verbatim>\<open>getEnvWithDefault\<close> yields the default for an unset variable and the value
  of a set one.
\<close>

theorem loadConfig_defaults:
  "(\<forall>e. dotenv w = Inl e \<longrightarrow>
        snd (loadConfig w (initial w)) = Inl (EnvFileError e) \<and>
        trace (fst (run w)) = [LoadDotenv, Print (ErrorLoadingConfiguration (EnvFileError e))]) \<and>
   (\<forall>kv port. dotenv w = Inr kv \<and> strconv_Atoi (os_Getenv (effective_env w) ''DB_PORT'') = Inr port \<longrightarrow>
        snd (loadConfig w (initial w)) =
          Inr \<lparr>Host = getEnvWithDefault (effective_env w) ''DB_HOST'' ''localhost'',
               Port = port,
               User = getEnvWithDefault (effective_env w) ''DB_USER'' ''postgres'',
               Password = getEnvWithDefault (effective_env w) ''DB_PASSWORD'' [],
               DBName = getEnvWithDefault (effective_env w) ''DB_NAME'' ''hospital_db'',
               SSLMode = getEnvWithDefault (effective_env w) ''DB_SSLMODE'' ''disable'',
               OutputDir = getEnvWithDefault (effective_env w) ''OUTPUT_DIR'' ''data_exports''\<rparr> \<and>
        (\<forall>key. effective_env w key = (case environ w key of Some v \<Rightarrow> Some v | None \<Rightarrow> kv key))) \<and>
   (\<forall>env key dflt. (env key = None \<longrightarrow> getEnvWithDefault env key dflt = dflt) \<and>
        (\<forall>v. env key = Some v \<longrightarrow> getEnvWithDefault env key dflt = v))"
proof -
  have 1: "snd (loadConfig w (initial w)) = Inl (EnvFileError e) \<and>
        trace (fst (run w)) = [LoadDotenv, Print (ErrorLoadingConfiguration (EnvFileError e))]"
    if "dotenv w = Inl e" for e
    using that by (simp add: run_def main_config_error loadConfig_initial say_def emit_def)
  have 2: "snd (loadConfig w (initial w)) =
          Inr \<lparr>Host = getEnvWithDefault (effective_env w) ''DB_HOST'' ''localhost'',
               Port = port,
               User = getEnvWithDefault (effective_env w) ''DB_USER'' ''postgres'',
               Password = getEnvWithDefault (effective_env w) ''DB_PASSWORD'' [],
               DBName = getEnvWithDefault (effective_env w) ''DB_NAME'' ''hospital_db'',
               SSLMode = getEnvWithDefault (effective_env w) ''DB_SSLMODE'' ''disable'',
               OutputDir = getEnvWithDefault (effective_env w) ''OUTPUT_DIR'' ''data_exports''\<rparr>"
    if "dotenv w = Inr kv" "strconv_Atoi (os_Getenv (effective_env w) ''DB_PORT'') = Inr port"
    for kv port
    using that by (simp add: loadConfig_initial)
  have 3: "effective_env w key = (case environ w key of Some v \<Rightarrow> Some v | None \<Rightarrow> kv key)"
    if "dotenv w = Inr kv" for kv key
    using that by (simp add: effective_env_def map_add_def split: option.splits)
  have 4: "(env key = None \<longrightarrow> getEnvWithDefault env key dflt = dflt) \<and>
        (\<forall>v. env key = Some v \<longrightarrow> getEnvWithDefault env key dflt = v)"
    for env :: "string \<rightharpoonup> string" and key dflt
    by (simp add: getEnvWithDefault_def)
  from 1 2 3 4 show ?thesis by blast
qed

theorem loadConfig_defaults_witness:
  "snd (loadConfig hostFromFile (initial hostFromFile)) =
     Inr \<lparr>Host = ''db.internal'', Port = 5432, User = ''postgres'', Password = [],
          DBName = ''hospital_db'', SSLMode = ''disable'', OutputDir = ''data_exports''\<rparr> \<and>
   trace (fst (run noDotenv)) =
     [LoadDotenv, Print (ErrorLoadingConfiguration
                   (EnvFileError ''open .env: no such file or directory''))]"
proof -
  have a: "dotenv hostFromFile = Inr [''DB_HOST'' \<mapsto> ''db.internal'', ''DB_PORT'' \<mapsto> ''6543'']"
    by (simp add: hostFromFile_def calm_def)
  have e: "effective_env hostFromFile =
             [''DB_HOST'' \<mapsto> ''db.internal'', ''DB_PORT'' \<mapsto> ''6543''] ++ [''DB_PORT'' \<mapsto> ''5432'']"
    by (simp add: effective_env_def hostFromFile_def calm_def)
  have b: "strconv_Atoi (os_Getenv (effective_env hostFromFile) ''DB_PORT'') = Inr 5432"
    by (simp add: e os_Getenv_def strconv_Atoi_def isDigit_def ord_def)
  have c: "dotenv noDotenv = Inl ''open .env: no such file or directory''"
    by (simp add: noDotenv_def calm_def)
  show ?thesis
    using loadConfig_defaults [of hostFromFile] loadConfig_defaults [of noDotenv] a b c
    by (simp add: e getEnvWithDefault_def)
qed


lemma main_config_ok:
  "snd (loadConfig w s) = Inr config \<Longrightarrow>
     fst (main w s) =
       (case sql_open w (connStr config) of
          Some e \<Rightarrow> say (ErrorConnecting e) (emit (SqlOpen (connStr config)) (fst (loadConfig w s)))
        | None \<Rightarrow> emit DbClose (fst (mainConnected w config
                     (emit (SqlOpen (connStr config)) (fst (loadConfig w s))))))"
  by (cases "loadConfig w s") (simp add: main_def Let_def split: option.splits prod.splits)

lemma mainConnected_last_line:
  "last (printed (trace (fst (mainConnected w config s)))) =
     (case db_ping w of
        Some e \<Rightarrow> ErrorPinging e
      | None \<Rightarrow>
          (case mkdir_all w (OutputDir config) of
             Some e \<Rightarrow> ErrorCreatingOutputDir e
           | None \<Rightarrow>
               (case snd (gitCommitAndPush w (OutputDir config) (time_Format (now w))
                            (exportViews w config (time_Format (now w)) views
                               (emit (MkdirAll (OutputDir config)) (say Connected (emit Ping s))))) of
                  Some e \<Rightarrow> ErrorGit e
                | None \<Rightarrow> Completed)))"
  by (simp add: mainConnected_def Let_def split: option.splits prod.splits)

subsection \<open>The loop over the views\<close>

lemma exportView_acts:
  "exportView w config d v s = s\<lparr>trace := trace s @ viewTrace w config d v\<rparr>"
  by (simp add: exportView_def viewTrace_def emit_def say_def Let_def
           split: sum.splits option.splits)

lemma exportViews_acts:
  "exportViews w config d vs s = s\<lparr>trace := trace s @ concat (map (viewTrace w config d) vs)\<rparr>"
proof (induction vs arbitrary: s)
  case Nil
  show ?case by simp
next
  case (Cons v vs)
  show ?case by (simp add: Cons.IH exportView_acts)
qed

lemma viewTrace_cases:
  "viewTrace w config d v =
     QueryRow (queryOf v) #
     (case query_row w (queryOf v) of
        Inl e \<Rightarrow> [Print (ErrorQueryingView v e)]
      | Inr scanned \<Rightarrow>
          (case addExportDateToJSON (case scanned of None \<Rightarrow> Some ''[]'' | Some b \<Rightarrow> Some b) d of
             Inl e \<Rightarrow> [Print (ErrorAddingDate v e)]
           | Inr wrapped \<Rightarrow>
               (case json_Indent wrapped of
                  Inl e \<Rightarrow> [Print (ErrorFormatting v e)]
                | Inr pretty \<Rightarrow>
                    (let f = filepath_Join (OutputDir config) (v @ ''.json'')
                     in WriteFile f pretty #
                        (case write_file w f pretty of
                           Some e \<Rightarrow> [Print (ErrorWritingFile f e)]
                         | None \<Rightarrow> [Print (Exported v f)])))))"
  by (simp add: exportView_def viewTrace_def queryOf_def emit_def say_def Let_def
           split: sum.splits option.splits)

lemma gitSteps_extends:
  "\<exists>post. trace (fst (gitSteps w m s)) = trace s @ post \<and> writes post = []"
  by (simp add: gitSteps_def exec_CombinedOutput_def emit_def say_def Let_def
           split: option.splits prod.splits)

lemma os_Chdir_trace: "trace (fst (os_Chdir w d s)) = trace s @ [Chdir d]"
  by (simp add: os_Chdir_def emit_def split: option.splits)

lemma gitCommitAndPush_extends:
  "\<exists>post. trace (fst (gitCommitAndPush w r m s)) = trace s @ post \<and> writes post = []"
proof (cases "getwd w = None \<and> chdir w r = None")
  case True
  then have ok: "getwd w = None" "chdir w r = None" by simp_all
  let ?s2 = "fst (os_Chdir w r (emit Getwd s))"
  obtain post where post: "trace (fst (gitSteps w m ?s2)) = trace ?s2 @ post" "writes post = []"
    using gitSteps_extends by blast
  have "trace (fst (gitCommitAndPush w r m s)) = trace s @ ([Getwd, Chdir r] @ post @ [Chdir (cwd s)])"
    by (simp only: gitCommitAndPush_entered [OF ok] fst_conv os_Chdir_trace post(1))
       (simp add: emit_def)
  moreover have "writes ([Getwd, Chdir r] @ post @ [Chdir (cwd s)]) = []"
    using post(2) by (simp add: writes_append)
  ultimately show ?thesis by blast
next
  case False
  then have "trace (fst (gitCommitAndPush w r m s)) = trace s @ [Getwd] \<or>
             trace (fst (gitCommitAndPush w r m s)) = trace s @ [Getwd, Chdir r]"
    by (auto simp: gitCommitAndPush_def os_Getwd_def os_Chdir_def emit_def split: option.splits)
  then show ?thesis
    by (elim disjE) (rule exI [of _ "[Getwd]"], simp, rule exI [of _ "[Getwd, Chdir r]"], simp)
qed

lemma run_reaches_loop:
  assumes "snd (loadConfig w (initial w)) = Inr config"
    and "sql_open w (connStr config) = None" and "db_ping w = None"
    and "mkdir_all w (OutputDir config) = None"
  shows "\<exists>post. trace (fst (run w)) =
           [LoadDotenv, SqlOpen (connStr config), Ping, Print Connected, MkdirAll (OutputDir config)]
           @ concat (map (viewTrace w config (time_Format (now w))) views) @ post
           \<and> writes post = []"
proof -
  let ?d = "time_Format (now w)"
  let ?pre = "[LoadDotenv, SqlOpen (connStr config), Ping, Print Connected, MkdirAll (OutputDir config)]"
  let ?s2 = "emit (MkdirAll (OutputDir config)) (say Connected (emit Ping
               (emit (SqlOpen (connStr config)) (fst (loadConfig w (initial w))))))"
  let ?s3 = "exportViews w config ?d views ?s2"
  have t1: "trace (fst (loadConfig w (initial w))) = [LoadDotenv]"
    by (simp add: loadConfig_initial split: sum.splits)
  have t3: "trace ?s3 = ?pre @ concat (map (viewTrace w config ?d) views)"
    by (simp add: exportViews_acts emit_def say_def t1)
  obtain post where post: "trace (fst (gitCommitAndPush w (OutputDir config) ?d ?s3)) = trace ?s3 @ post"
    "writes post = []"
    using gitCommitAndPush_extends by blast
  have m: "fst (main w (initial w)) = emit DbClose (fst (mainConnected w config
             (emit (SqlOpen (connStr config)) (fst (loadConfig w (initial w))))))"
    using assms(1,2) by (simp add: main_config_ok)
  have "\<exists>l. trace (fst (run w)) = trace (fst (gitCommitAndPush w (OutputDir config) ?d ?s3)) @ [Print l, DbClose]"
    using assms(3,4)
    by (simp add: run_def m mainConnected_def Let_def emit_def say_def split: prod.splits option.splits)
  then obtain l where "trace (fst (run w)) = ?pre @ concat (map (viewTrace w config ?d) views) @ (post @ [Print l, DbClose])"
    using post(1) t3 by auto
  moreover have "writes (post @ [Print l, DbClose]) = []"
    using post(2) by (simp add: writes_append)
  ultimately show ?thesis by blast
qed

text \<open>
  C4.  The loop over the views appends, for each view in turn, exactly the events of that
  view's own round, whatever happened in the rounds before it.  A round always runs the
  view's query; when the query, the JSON wrapping, the formatting or the file write fails
  it prints that error and ends, and otherwise it hands the complete document to
  \<^verbatim>\<open>os.WriteFile\<close> and reports the export.  In a run that reaches the loop, the rounds of
  all three views are in the trace.
\<close>

theorem failing_view_is_skipped_alone:
  "trace (exportViews w config d vs s) = trace s @ concat (map (viewTrace w config d) vs) \<and>
   (\<forall>v. viewTrace w config d v =
     QueryRow (queryOf v) #
     (case query_row w (queryOf v) of
        Inl e \<Rightarrow> [Print (ErrorQueryingView v e)]
      | Inr scanned \<Rightarrow>
          (case addExportDateToJSON (case scanned of None \<Rightarrow> Some ''[]'' | Some b \<Rightarrow> Some b) d of
             Inl e \<Rightarrow> [Print (ErrorAddingDate v e)]
           | Inr wrapped \<Rightarrow>
               (case json_Indent wrapped of
                  Inl e \<Rightarrow> [Print (ErrorFormatting v e)]
                | Inr pretty \<Rightarrow>
                    (let f = filepath_Join (OutputDir config) (v @ ''.json'')
                     in WriteFile f pretty #
                        (case write_file w f pretty of
                           Some e \<Rightarrow> [Print (ErrorWritingFile f e)]
                         | None \<Rightarrow> [Print (Exported v f)])))))) \<and>
   (snd (loadConfig w (initial w)) = Inr config \<and> sql_open w (connStr config) = None \<and>
    db_ping w = None \<and> mkdir_all w (OutputDir config) = None \<longrightarrow>
      (\<exists>post. trace (fst (run w)) =
           [LoadDotenv, SqlOpen (connStr config), Ping, Print Connected, MkdirAll (OutputDir config)]
           @ concat (map (viewTrace w config (time_Format (now w))) views) @ post))"
proof -
  have 1: "trace (exportViews w config d vs s) = trace s @ concat (map (viewTrace w config d) vs)"
    by (simp add: exportViews_acts)
  have 3: "\<exists>post. trace (fst (run w)) =
           [LoadDotenv, SqlOpen (connStr config), Ping, Print Connected, MkdirAll (OutputDir config)]
           @ concat (map (viewTrace w config (time_Format (now w))) views) @ post"
    if "snd (loadConfig w (initial w)) = Inr config \<and> sql_open w (connStr config) = None \<and>
        db_ping w = None \<and> mkdir_all w (OutputDir config) = None"
  proof -
    from that have a: "snd (loadConfig w (initial w)) = Inr config"
      "sql_open w (connStr config) = None" "db_ping w = None"
      "mkdir_all w (OutputDir config) = None"
      by simp_all
    from run_reaches_loop [OF a] show ?thesis by (elim exE conjE) (rule exI)
  qed
  show ?thesis
    by (intro conjI allI impI) (rule 1, rule viewTrace_cases, erule 3)
qed

lemma empty_doc: "addExportDateToJSON (Some ''[]'') ''2024-03-07'' = Inr ''{\"data\":[],\"export_date\":\"2024-03-07\"}''"
  by code_simp

lemma empty_pretty: "json_Indent ''{\"data\":[],\"export_date\":\"2024-03-07\"}'' = Inr emptySnapshot"
  by code_simp

theorem failing_view_is_skipped_alone_witness:
  "trace (exportViews secondViewFails defaultConfig ''2024-03-07'' views start) =
     [QueryRow (queryOf ''hospital_seven_avg_change''),
      WriteFile ''data_exports/hospital_seven_avg_change.json'' emptySnapshot,
      Print (Exported ''hospital_seven_avg_change'' ''data_exports/hospital_seven_avg_change.json''),
      QueryRow (queryOf ''daily_wait_time_stats''),
      Print (ErrorQueryingView ''daily_wait_time_stats'' ''pq: relation does not exist''),
      QueryRow (queryOf ''monthly_avg_wait_times''),
      WriteFile ''data_exports/monthly_avg_wait_times.json'' emptySnapshot,
      Print (Exported ''monthly_avg_wait_times'' ''data_exports/monthly_avg_wait_times.json'')]"
proof -
  have j: "filepath_Join ''data_exports'' ''hospital_seven_avg_change.json''
             = ''data_exports/hospital_seven_avg_change.json''"
    "filepath_Join ''data_exports'' ''monthly_avg_wait_times.json''
             = ''data_exports/monthly_avg_wait_times.json''"
    by code_simp+
  have q: "query_row secondViewFails (queryOf ''hospital_seven_avg_change'') = Inr None"
    "query_row secondViewFails (queryOf ''daily_wait_time_stats'') = Inl ''pq: relation does not exist''"
    "query_row secondViewFails (queryOf ''monthly_avg_wait_times'') = Inr None"
    by (simp_all add: secondViewFails_def calm_def queryOf_def)
  have w: "write_file secondViewFails = (\<lambda>_ _. None)"
    by (simp add: secondViewFails_def calm_def)
  have t: "trace start = []"
    by (simp add: start_def)
  note inst = failing_view_is_skipped_alone [of secondViewFails defaultConfig "''2024-03-07''" views start]
  from inst t
  have e: "trace (exportViews secondViewFails defaultConfig ''2024-03-07'' views start) =
             concat (map (viewTrace secondViewFails defaultConfig ''2024-03-07'') views)"
    by simp
  show ?thesis
    unfolding e
    by (simp add: views_def viewTrace_cases q w empty_doc empty_pretty defaultConfig_def j
                  Let_def)
qed

subsection \<open>Dates, quoting and indenting\<close>

lemmas scanner_defs = scan_step_def stateBeginValueOrEmpty_def stateBeginValue_def
  stateBeginStringOrEmpty_def stateBeginString_def stateEndValue_def stateEndTop_def
  stateInString_def stateInStringEsc_def stateHex_def stateNeg_def state1_def state0_def
  stateDot_def stateDot0_def stateE_def stateESign_def stateE0_def stateLit_def
  goto_def scan_error_def pushParseState_def popParseState_def maxNestingDepth_def

lemmas char_defs = isSpace_def isDigit_def isHex_def ord_def isHTML_def htmlSafe_def plainChar_def

lemma ord_char_of: "ord (char_of (n::nat)) = n mod 256"
  by (simp add: ord_def)

lemma string_of_nat_digits: "c \<in> set (string_of_nat n) \<Longrightarrow> isDigit c"
proof (induction n arbitrary: c rule: string_of_nat.induct)
  case (1 n)
  show ?case
  proof (cases "n < 10")
    case True
    with "1.prems" have "c = char_of (48 + n)"
      by (simp add: string_of_nat.simps [of n])
    with True show ?thesis by (simp add: isDigit_def ord_char_of)
  next
    case False
    with "1.prems" have "c \<in> set (string_of_nat (n div 10)) \<or> c = char_of (48 + n mod 10)"
      by (auto simp: string_of_nat.simps [of n])
    then show ?thesis
    proof
      assume "c \<in> set (string_of_nat (n div 10))"
      with False "1.IH" show ?thesis by simp
    next
      assume "c = char_of (48 + n mod 10)"
      moreover have "n mod 10 < 10" by simp
      ultimately show ?thesis by (simp add: isDigit_def ord_char_of)
    qed
  qed
qed

lemma appendInt_plain: "c \<in> set (appendInt x k) \<Longrightarrow> plainChar c"
  by (auto simp: appendInt_def Let_def plainChar_def isDigit_def ord_def
           dest: string_of_nat_digits [unfolded isDigit_def ord_def] split: if_splits)

lemma time_Format_plain: "c \<in> set (time_Format d) \<Longrightarrow> plainChar c"
  by (auto simp: time_Format_def dest: appendInt_plain) (simp add: plainChar_def)

lemma plainChar_facts:
  "plainChar c \<Longrightarrow> htmlSafe c \<and> ord c < 128 \<and> c \<noteq> CHR 0x22 \<and> c \<noteq> CHR 0x5C \<and> \<not> ord c < 32"
  by (auto simp: char_defs)

lemma quote_loop_plain: "\<forall>c\<in>set s. plainChar c \<Longrightarrow> quote_loop 0 True s = s"
  by (induction s) (auto dest: plainChar_facts)

lemma appendString_plain: "\<forall>c\<in>set s. plainChar c \<Longrightarrow> appendString s = [CHR 0x22] @ s @ [CHR 0x22]"
  by (simp add: appendString_def quote_loop_plain)

lemma indent_loop_plain:
  "step (scan st) = InString \<Longrightarrow> \<not> needIndent st \<Longrightarrow> \<forall>c\<in>set s. plainChar c \<Longrightarrow>
     indent_loop st (s @ rest) = indent_loop (st\<lparr>dst := dst st @ s\<rparr>) rest"
proof (induction s arbitrary: st)
  case Nil
  show ?case by simp
next
  case (Cons c s)
  from Cons.prems have p: "plainChar c" by simp
  have sc: "scan_step (scan st) c = (scan st, ScanContinue)"
    using Cons.prems(1) plainChar_facts [OF p]
    by (simp add: scan_step_def stateInString_def)
  have "indent_loop st ((c # s) @ rest) = indent_loop (st\<lparr>dst := dst st @ [c]\<rparr>) (s @ rest)"
    using Cons.prems(2) by (simp add: sc indent_emit_def Let_def)
  also have "\<dots> = indent_loop (st\<lparr>dst := dst st @ [c]\<rparr>\<lparr>dst := dst (st\<lparr>dst := dst st @ [c]\<rparr>) @ s\<rparr>) rest"
    using Cons.prems by (intro Cons.IH) simp_all
  finally show ?case by simp
qed

lemma wrap_empty:
  "addExportDateToJSON (Some ''[]'') d = Inr (''{\"data\":[],\"export_date\":'' @ appendString d @ ''}'')"
proof -
  have 1: "marshalRawMessage (Some ''[]'') = Inr ''[]''" by code_simp
  have 2: "appendString ''data'' = ''\"data\"''" by code_simp
  have 3: "appendString ''export_date'' = ''\"export_date\"''" by code_simp
  show ?thesis by (simp add: addExportDateToJSON_def 1 2 3)
qed

lemma indent_empty:
  assumes "\<forall>c\<in>set d. plainChar c"
  shows "json_Indent (''{\"data\":[],\"export_date\":'' @ [CHR 0x22] @ d @ [CHR 0x22] @ ''}'') = Inr (emptyDocument d)"
proof -
  let ?init = "\<lparr>scan = newScanner, needIndent = False, depth = 0, dst = []\<rparr>"
  let ?st1 = "\<lparr>scan = \<lparr>step = InString, parseState = [ParseObjectValue], failed = False, endTop = False\<rparr>,
               needIndent = False, depth = 1,
               dst = ''{'' @ [CHR 0x0A] @ ''  \"data\": [],'' @ [CHR 0x0A] @ ''  \"export_date\": \"''\<rparr>"
  have a: "indent_loop ?init (''{\"data\":[],\"export_date\":\"'' @ xs) = indent_loop ?st1 xs" for xs
    by (simp add: newScanner_def scanner_defs char_defs indent_emit_def appendNewline_def Let_def)
  have b: "indent_loop ?st1 (d @ ''\"}'') = indent_loop (?st1\<lparr>dst := dst ?st1 @ d\<rparr>) ''\"}''"
    using assms by (intro indent_loop_plain) simp_all
  have c: "indent_loop (?st1\<lparr>dst := dst ?st1 @ d\<rparr>) ''\"}'' =
             \<lparr>scan = \<lparr>step = EndTop, parseState = [], failed = False, endTop = True\<rparr>,
              needIndent = False, depth = 0, dst = emptyDocument d\<rparr>"
    by (simp add: scanner_defs char_defs indent_emit_def appendNewline_def Let_def emptyDocument_def)
  have "indent_loop ?init (''{\"data\":[],\"export_date\":'' @ [CHR 0x22] @ d @ [CHR 0x22] @ ''}'')
          = indent_loop ?init (''{\"data\":[],\"export_date\":\"'' @ (d @ ''\"}''))"
    by simp
  also have "\<dots> = indent_loop ?st1 (d @ ''\"}'')"
    by (rule a)
  also have "\<dots> = indent_loop (?st1\<lparr>dst := dst ?st1 @ d\<rparr>) ''\"}''"
    by (rule b)
  also note c
  finally show ?thesis
    by (simp add: json_Indent_def eof_error_def)
qed

subsection \<open>Paths of the snapshot files\<close>

lemma split_slash_noslash: "CHR ''/'' \<notin> set ys \<Longrightarrow> split_slash ys cur = [rev cur @ ys]"
  by (induction ys arbitrary: cur) auto

lemma split_slash_append:
  "split_slash (xs @ CHR ''/'' # ys) cur = split_slash xs cur @ split_slash ys []"
  by (induction xs arbitrary: cur) auto

lemma join_slash_snoc:
  "join_slash (xs @ [e]) = (if xs = [] then e else join_slash xs @ ''/'' @ e)"
  by (induction xs rule: join_slash.induct) auto

lemma clean_elem_real: "realElem e \<Longrightarrow> clean_elem r stack e = e # stack"
  by (simp add: clean_elem_def realElem_def)

lemma filepath_Join_real:
  assumes "realElem name"
  shows "filepath_Join dir name = joinPrefix dir @ name"
proof (cases "dir = []")
  case True
  have "split_slash name [] = [name]"
    using assms by (simp add: split_slash_noslash realElem_def)
  moreover have "hd name \<noteq> CHR ''/''"
    using assms by (cases name) (auto simp: realElem_def)
  ultimately show ?thesis
    using True assms
    by (simp add: filepath_Join_def filepath_Clean_def joinPrefix_def clean_elem_real realElem_def)
next
  case False
  define rooted where "rooted = (hd dir = CHR ''/'')"
  define stack where "stack = foldl (clean_elem rooted) [] (split_slash dir [])"
  have s: "split_slash (dir @ CHR ''/'' # name) [] = split_slash dir [] @ [name]"
    using assms by (simp add: split_slash_append split_slash_noslash realElem_def)
  have h: "(hd (dir @ CHR ''/'' # name) = CHR ''/'') = rooted"
    using False by (simp add: rooted_def)
  have f: "foldl (clean_elem rooted) [] (split_slash (dir @ CHR ''/'' # name) []) = name # stack"
    using assms by (simp add: s stack_def clean_elem_real)
  have "filepath_Clean (dir @ CHR ''/'' # name) =
          (if rooted then CHR ''/'' # join_slash (rev (name # stack))
           else join_slash (rev (name # stack)))"
    using f h by (cases rooted) (simp_all add: filepath_Clean_def Let_def)
  moreover have "joinPrefix dir =
          (if rooted then ''/'' else []) @ (if stack = [] then [] else join_slash (rev stack) @ ''/'')"
    using False by (simp add: joinPrefix_def rooted_def stack_def Let_def)
  ultimately show ?thesis
    using False by (simp add: filepath_Join_def join_slash_snoc)
qed

lemma views_real: "v \<in> set views \<Longrightarrow> realElem (v @ ''.json'')"
  by (auto simp: views_def realElem_def)

lemma view_paths_inj:
  "v \<in> set views \<Longrightarrow> v' \<in> set views \<Longrightarrow>
   filepath_Join dir (v @ ''.json'') = filepath_Join dir (v' @ ''.json'') \<Longrightarrow> v = v'"
  by (simp add: filepath_Join_real views_real)

lemma views_distinct: "distinct views"
  by (simp add: views_def)

subsection \<open>Views without rows\<close>

text \<open>
  C5.  For a view whose query returns a database NULL, the wrapper built for the run's date
  has the empty array as its \<^verbatim>\<open>data\<close> member, and the round hands to
  \<^verbatim>\<open>os.WriteFile\<close> exactly the document \<open>emptyDocument\<close> of that date, whose
  \<^verbatim>\<open>data\<close> line reads \<^verbatim>\<open>"data": [],\<close>: neither \<^verbatim>\<open>null\<close> nor missing.
\<close>

theorem empty_view_exports_empty_array:
  assumes "query_row w (queryOf v) = Inr None"
  shows "addExportDateToJSON (Some ''[]'') (time_Format (now w))
           = Inr (''{\"data\":[],\"export_date\":\"'' @ time_Format (now w) @ ''\"}'') \<and>
         (\<exists>l. viewTrace w config (time_Format (now w)) v =
            [QueryRow (queryOf v),
             WriteFile (filepath_Join (OutputDir config) (v @ ''.json''))
                       (emptyDocument (time_Format (now w))),
             Print l])"
proof -
  let ?d = "time_Format (now w)"
  have p: "\<forall>c\<in>set ?d. plainChar c"
    by (simp add: time_Format_plain)
  have 1: "addExportDateToJSON (Some ''[]'') ?d = Inr (''{\"data\":[],\"export_date\":\"'' @ ?d @ ''\"}'')"
    by (simp add: wrap_empty appendString_plain [OF p])
  have 2: "json_Indent (''{\"data\":[],\"export_date\":\"'' @ ?d @ ''\"}'') = Inr (emptyDocument ?d)"
    using indent_empty [OF p] by simp
  show ?thesis
    using assms 1 2 by (simp add: viewTrace_cases Let_def split: option.splits)
qed

theorem empty_view_exports_empty_array_witness:
  "\<exists>l. viewTrace calm defaultConfig ''2024-03-07'' ''daily_wait_time_stats'' =
      [QueryRow (queryOf ''daily_wait_time_stats''),
       WriteFile ''data_exports/daily_wait_time_stats.json'' emptySnapshot, Print l]"
proof -
  have q: "query_row calm (queryOf ''daily_wait_time_stats'') = Inr None"
    by (simp add: calm_def)
  have d: "time_Format (now calm) = ''2024-03-07''"
    unfolding calm_def by code_simp
  have j: "filepath_Join (OutputDir defaultConfig) ''daily_wait_time_stats.json''
             = ''data_exports/daily_wait_time_stats.json''"
    by code_simp
  have e: "emptyDocument ''2024-03-07'' = emptySnapshot"
    by code_simp
  show ?thesis
    using empty_view_exports_empty_array [OF q, of defaultConfig] by (simp add: d j e)
qed

subsection \<open>What compacting and indenting change\<close>

lemma stepOK_error: "stepOK s c (scan_error s')"
  by (simp add: stepOK_def consistent_def scan_error_def)

lemma stepOK_goto:
  "st \<noteq> StError \<Longrightarrow> v \<noteq> ScanError \<Longrightarrow> v \<noteq> ScanSkipSpace \<Longrightarrow> v \<noteq> ScanEnd \<Longrightarrow>
   failed s' = failed s \<Longrightarrow> stepOK s c (goto st v s')"
  by (simp add: stepOK_def consistent_def goto_def)

lemma stepOK_same:
  "consistent s \<Longrightarrow> v \<noteq> ScanError \<Longrightarrow> v \<noteq> ScanEnd \<Longrightarrow> (v = ScanSkipSpace \<longrightarrow> isSpace c) \<Longrightarrow>
   stepOK s c (s, v)"
  by (simp add: stepOK_def)

lemma stepOK_push:
  "st \<noteq> StError \<Longrightarrow> v \<noteq> ScanError \<Longrightarrow> v \<noteq> ScanSkipSpace \<Longrightarrow> v \<noteq> ScanEnd \<Longrightarrow>
   stepOK s c (pushParseState (s\<lparr>step := st\<rparr>) p v)"
  by (simp add: stepOK_def consistent_def pushParseState_def scan_error_def Let_def)

lemma stepOK_pop:
  "v \<noteq> ScanError \<Longrightarrow> v \<noteq> ScanSkipSpace \<Longrightarrow> v \<noteq> ScanEnd \<Longrightarrow> stepOK s c (popParseState s, v)"
  by (simp add: stepOK_def consistent_def popParseState_def Let_def)

lemma stepOK_goto_skip: "st \<noteq> StError \<Longrightarrow> isSpace c \<Longrightarrow> stepOK s c (goto st ScanSkipSpace s)"
  by (simp add: stepOK_def consistent_def goto_def)

lemma punct_not_space:
  "\<not> isSpace CHR '']''" "\<not> isSpace CHR ''}''" "\<not> isSpace CHR '':''" "\<not> isSpace CHR '',''"
  "\<not> isSpace CHR ''{''" "\<not> isSpace CHR ''[''" "\<not> isSpace CHR 0x22" "\<not> isSpace CHR 0x5C"
  by (simp_all add: isSpace_def)

lemmas stepOK_blocks = stepOK_error stepOK_goto stepOK_same stepOK_push stepOK_pop stepOK_goto_skip punct_not_space

lemma stepOK_EndTop: "consistent s \<Longrightarrow> stepOK s c (stateEndTop s c)"
  by (simp add: stateEndTop_def stepOK_def consistent_def scan_error_def)

lemma stepOK_EndTop': "stepOK s c (stateEndTop (s\<lparr>step := EndTop, endTop := True\<rparr>) c)"
  by (simp add: stateEndTop_def stepOK_def consistent_def scan_error_def)

lemma stepOK_EndValue: "consistent s \<Longrightarrow> stepOK s c (stateEndValue s c)"
  by (simp add: stateEndValue_def stepOK_EndTop' stepOK_blocks split: list.splits parse_state.splits)

lemma stepOK_BeginValue: "consistent s \<Longrightarrow> stepOK s c (stateBeginValue s c)"
  by (simp add: stateBeginValue_def stepOK_blocks)

lemma stepOK_BeginValueOrEmpty: "consistent s \<Longrightarrow> stepOK s c (stateBeginValueOrEmpty s c)"
  by (simp add: stateBeginValueOrEmpty_def stepOK_EndValue stepOK_BeginValue stepOK_blocks)

lemma stepOK_BeginString: "consistent s \<Longrightarrow> stepOK s c (stateBeginString s c)"
  by (simp add: stateBeginString_def stepOK_blocks)

lemma stepOK_EndValue': "failed s' = failed s \<Longrightarrow> step s' \<noteq> StError \<Longrightarrow> stepOK s c (stateEndValue s' c)"
  using stepOK_EndValue [of s' c] by (simp add: stepOK_def consistent_def)

lemma stepOK_BeginStringOrEmpty: "consistent s \<Longrightarrow> step s \<noteq> StError \<Longrightarrow> stepOK s c (stateBeginStringOrEmpty s c)"
  by (simp add: stateBeginStringOrEmpty_def stepOK_EndValue' stepOK_BeginString stepOK_blocks)

lemma stepOK_InString: "consistent s \<Longrightarrow> stepOK s c (stateInString s c)"
  by (simp add: stateInString_def stepOK_blocks)

lemma stepOK_InStringEsc: "consistent s \<Longrightarrow> stepOK s c (stateInStringEsc s c)"
  by (simp add: stateInStringEsc_def stepOK_blocks)

lemma stepOK_Hex: "nxt \<noteq> StError \<Longrightarrow> stepOK s c (stateHex nxt s c)"
  by (simp add: stateHex_def stepOK_blocks)

lemma stepOK_0: "consistent s \<Longrightarrow> stepOK s c (state0 s c)"
  by (simp add: state0_def stepOK_EndValue stepOK_blocks)

lemma stepOK_1: "consistent s \<Longrightarrow> stepOK s c (state1 s c)"
  by (simp add: state1_def stepOK_0 stepOK_blocks)

lemma stepOK_Neg: "stepOK s c (stateNeg s c)"
  by (simp add: stateNeg_def stepOK_blocks)

lemma stepOK_Dot: "stepOK s c (stateDot s c)"
  by (simp add: stateDot_def stepOK_blocks)

lemma stepOK_Dot0: "consistent s \<Longrightarrow> stepOK s c (stateDot0 s c)"
  by (simp add: stateDot0_def stepOK_EndValue stepOK_blocks)

lemma stepOK_ESign: "stepOK s c (stateESign s c)"
  by (simp add: stateESign_def stepOK_blocks)

lemma stepOK_E: "stepOK s c (stateE s c)"
  by (simp add: stateE_def stepOK_ESign stepOK_blocks)

lemma stepOK_E0: "consistent s \<Longrightarrow> stepOK s c (stateE0 s c)"
  by (simp add: stateE0_def stepOK_EndValue stepOK_blocks)

lemma stepOK_Lit: "nxt \<noteq> StError \<Longrightarrow> stepOK s c (stateLit want nxt s c)"
  by (simp add: stateLit_def stepOK_blocks)

lemma stepOK_StError: "consistent s \<Longrightarrow> step s = StError \<Longrightarrow> stepOK s c (s, ScanError)"
  by (simp add: stepOK_def consistent_def)

lemmas stepOK_states = stepOK_EndTop stepOK_EndValue stepOK_BeginValue stepOK_BeginValueOrEmpty stepOK_BeginString
  stepOK_BeginStringOrEmpty stepOK_InString stepOK_InStringEsc stepOK_Hex stepOK_0 stepOK_1 stepOK_Neg stepOK_Dot stepOK_Dot0
  stepOK_ESign stepOK_E stepOK_E0 stepOK_Lit stepOK_StError

lemma stepOK_scan_step: "consistent s \<Longrightarrow> stepOK s c (scan_step s c)"
  by (cases "step s") (simp_all add: scan_step_def stepOK_states)


lemma scan_step_consistent: "consistent s \<Longrightarrow> consistent (fst (scan_step s c))"
  using stepOK_scan_step [of s c] by (simp add: stepOK_def)

lemma scan_step_sticky: "consistent s \<Longrightarrow> failed s \<Longrightarrow> failed (fst (scan_step s c))"
  using stepOK_scan_step [of s c] by (simp add: stepOK_def)



lemma eof_error_failed: "failed s \<Longrightarrow> eof_error s"
  by (simp add: eof_error_def)


lemma indent_emit_scan: "scan (indent_emit st v c) = scan st"
  by (simp add: indent_emit_def Let_def)

lemma inked_append: "inked (xs @ ys) = inked xs @ inked ys"
  by (simp add: inked_def)

lemma inked_spaces: "inked (concat (replicate n ''  '')) = []"
  by (induction n) (simp_all add: inked_def isSpace_def)

lemma inked_newline: "inked (appendNewline k) = []"
  using inked_spaces [of "nat k"] by (simp add: appendNewline_def inked_def isSpace_def)

lemma inked_space: "inked [c, CHR '' ''] = inked [c]"
  by (simp add: inked_def isSpace_def)

lemma inked_cons_newline: "inked (c # appendNewline k) = inked [c]"
  using inked_append [of "[c]" "appendNewline k"] by (simp add: inked_newline)

lemma indent_emit_inked: "inked (dst (indent_emit st v c)) = inked (dst st) @ inked [c]"
  by (simp add: indent_emit_def Let_def inked_append inked_newline inked_space inked_cons_newline)

lemma indent_loop_sticky:
  "consistent (scan st) \<Longrightarrow> failed (scan st) \<Longrightarrow> failed (scan (indent_loop st cs))"
proof (induction cs arbitrary: st)
  case Nil
  then show ?case by simp
next
  case (Cons c cs)
  obtain s1 v where sv: "scan_step (scan st) c = (s1, v)" by (cases "scan_step (scan st) c")
  have s1: "consistent s1" "failed s1"
    using scan_step_consistent [OF Cons.prems(1), of c] scan_step_sticky [OF Cons.prems, of c] sv
    by simp_all
  show ?case
    using s1 Cons.IH [of "st\<lparr>scan := s1\<rparr>"] Cons.IH [of "indent_emit (st\<lparr>scan := s1\<rparr>) v c"]
    by (simp add: sv indent_emit_scan)
qed

lemma indent_loop_inked:
  assumes "consistent (scan st)" and "\<not> failed (scan (indent_loop st cs))"
  shows "inked (dst (indent_loop st cs)) = inked (dst st) @ inked cs"
  using assms
proof (induction cs arbitrary: st)
  case Nil
  then show ?case by (simp add: inked_def)
next
  case (Cons c cs)
  obtain s1 v where sv: "scan_step (scan st) c = (s1, v)" by (cases "scan_step (scan st) c")
  have k: "stepOK (scan st) c (s1, v)"
    using stepOK_scan_step [OF Cons.prems(1), of c] sv by simp
  then have s1: "consistent s1" by (simp add: stepOK_def)
  have ne: "v \<noteq> ScanError"
  proof
    assume "v = ScanError"
    with k have "failed s1" by (simp add: stepOK_def)
    with Cons.prems(2) sv \<open>v = ScanError\<close> show False by simp
  qed
  show ?case
  proof (cases "v = ScanSkipSpace")
    case True
    with k have sp: "isSpace c" by (simp add: stepOK_def)
    from True sv have e: "indent_loop st (c # cs) = indent_loop (st\<lparr>scan := s1\<rparr>) cs" by simp
    with Cons.prems(2) have "\<not> failed (scan (indent_loop (st\<lparr>scan := s1\<rparr>) cs))" by simp
    with Cons.IH [of "st\<lparr>scan := s1\<rparr>"] s1
    have "inked (dst (indent_loop (st\<lparr>scan := s1\<rparr>) cs)) = inked (dst st) @ inked cs" by simp
    with e sp show ?thesis by (simp add: inked_def)
  next
    case False
    let ?st = "indent_emit (st\<lparr>scan := s1\<rparr>) v c"
    from False ne sv have e: "indent_loop st (c # cs) = indent_loop ?st cs" by simp
    with Cons.prems(2) have "\<not> failed (scan (indent_loop ?st cs))" by simp
    with Cons.IH [of ?st] s1
    have "inked (dst (indent_loop ?st cs)) = inked (dst ?st) @ inked cs"
      by (simp add: indent_emit_scan)
    with e show ?thesis
      using inked_append [of "[c]" cs] by (simp add: indent_emit_inked)
  qed
qed

lemma json_Indent_inked:
  assumes "json_Indent src = Inr out"
  shows "inked out = inked src"
proof -
  let ?init = "\<lparr>scan = newScanner, needIndent = False, depth = 0, dst = []\<rparr>"
  have c0: "consistent (scan ?init)" by (simp add: consistent_def newScanner_def)
  have nf: "\<not> failed (scan (indent_loop ?init src))"
    using assms eof_error_failed by (auto simp: json_Indent_def Let_def split: if_splits)
  from indent_loop_inked [OF c0 nf] assms show ?thesis
    by (auto simp: json_Indent_def Let_def inked_def split: if_splits)
qed

subsection \<open>The Snapshot Writer\<close>





subsection \<open>The snapshot files of a run\<close>

lemma viewTrace_writes:
  "writes (viewTrace w config d v) =
     (case query_row w (queryOf v) of
        Inl e \<Rightarrow> []
      | Inr scanned \<Rightarrow>
          (case addExportDateToJSON (case scanned of None \<Rightarrow> Some ''[]'' | Some b \<Rightarrow> Some b) d of
             Inl e \<Rightarrow> []
           | Inr wrapped \<Rightarrow>
               (case json_Indent wrapped of
                  Inl e \<Rightarrow> []
                | Inr pretty \<Rightarrow> [(filepath_Join (OutputDir config) (v @ ''.json''), pretty)])))"
  by (simp add: viewTrace_cases Let_def split: sum.splits option.splits)

lemma writes_concat: "writes (concat xss) = concat (map writes xss)"
  by (induction xss) (simp_all add: writes_append)

lemma run_writes:
  "writes (trace (fst (run w))) = [] \<or>
   (\<exists>config. snd (loadConfig w (initial w)) = Inr config \<and>
      writes (trace (fst (run w))) =
        concat (map (\<lambda>v. writes (viewTrace w config (time_Format (now w)) v)) views))"
proof (cases "snd (loadConfig w (initial w))")
  case (Inl e)
  have "trace (fst (loadConfig w (initial w))) = [LoadDotenv]"
    by (simp add: loadConfig_initial split: sum.splits)
  with Inl show ?thesis
    by (simp add: run_def main_config_error say_def emit_def)
next
  case (Inr config)
  have t1: "trace (fst (loadConfig w (initial w))) = [LoadDotenv]"
    by (simp add: loadConfig_initial split: sum.splits)
  show ?thesis
  proof (cases "sql_open w (connStr config) = None \<and> db_ping w = None \<and>
                mkdir_all w (OutputDir config) = None")
    case True
    then obtain post where
      "trace (fst (run w)) =
         [LoadDotenv, SqlOpen (connStr config), Ping, Print Connected, MkdirAll (OutputDir config)]
         @ concat (map (viewTrace w config (time_Format (now w))) views) @ post"
      "writes post = []"
      using run_reaches_loop [OF Inr] by blast
    then have "writes (trace (fst (run w))) =
        concat (map (\<lambda>v. writes (viewTrace w config (time_Format (now w)) v)) views)"
      by (simp add: writes_append writes_concat comp_def)
    with Inr show ?thesis by blast
  next
    case False
    then have "writes (trace (fst (run w))) = []"
      using Inr t1
      by (auto simp: run_def main_config_ok mainConnected_def Let_def emit_def say_def
                     writes_append split: option.splits)
    then show ?thesis by simp
  qed
qed


lemma wrap_shape:
  assumes "\<forall>c\<in>set d. plainChar c" and "addExportDateToJSON data d = Inr wrapped"
  shows "\<exists>raw. marshalRawMessage data = Inr raw \<and>
               wrapped = ''{\"data\":'' @ raw @ '',\"export_date\":\"'' @ d @ ''\"}''"
proof -
  have 2: "appendString ''data'' = ''\"data\"''" by code_simp
  have 3: "appendString ''export_date'' = ''\"export_date\"''" by code_simp
  show ?thesis
    using assms(2)
    by (auto simp: addExportDateToJSON_def 2 3 appendString_plain [OF assms(1)] split: sum.splits)
qed

lemma string_of_nat_length: "0 < k \<Longrightarrow> n < 10 ^ k \<Longrightarrow> length (string_of_nat n) \<le> k"
proof (induction n arbitrary: k rule: string_of_nat.induct)
  case (1 n)
  show ?case
  proof (cases "n < 10")
    case True
    with "1.prems" show ?thesis by (simp add: string_of_nat.simps [of n])
  next
    case False
    with "1.prems" have k: "1 < k" by (cases "k = 1") auto
    then obtain j where j: "k = Suc j" "0 < j" by (cases k) auto
    with "1.prems" have "n div 10 < 10 ^ j" by (simp add: div_less_iff_less_mult mult.commute)
    with False "1.IH" j have "length (string_of_nat (n div 10)) \<le> j" by simp
    with False j show ?thesis by (simp add: string_of_nat.simps [of n])
  qed
qed

lemma string_of_nat_nonempty: "string_of_nat n \<noteq> []"
  by (simp add: string_of_nat.simps [of n])

lemma appendInt_width:
  assumes "0 \<le> x" and "x < 10 ^ k" and "0 < k"
  shows "length (appendInt x k) = k \<and> (\<forall>c\<in>set (appendInt x k). isDigit c)"
proof -
  have "nat \<bar>x\<bar> < 10 ^ k" using assms(1,2) by (simp add: nat_less_iff)
  then have "length (string_of_nat (nat \<bar>x\<bar>)) \<le> k"
    using assms(3) by (rule string_of_nat_length [rotated])
  then show ?thesis
    using assms(1) by (auto simp: appendInt_def Let_def isDigit_def ord_def
                            dest: string_of_nat_digits [unfolded isDigit_def ord_def])
qed

lemma time_Format_shape:
  assumes "0 \<le> year d" "year d \<le> 9999" "month d \<le> 12" "day d \<le> 31"
  shows "\<exists>Y M D. time_Format d = Y @ ''-'' @ M @ ''-'' @ D \<and> length Y = 4 \<and> length M = 2 \<and>
           length D = 2 \<and> (\<forall>c\<in>set (Y @ M @ D). isDigit c)"
proof -
  have y: "length (appendInt (year d) 4) = 4 \<and> (\<forall>c\<in>set (appendInt (year d) 4). isDigit c)"
    using assms(1,2) by (intro appendInt_width) simp_all
  have m: "length (appendInt (int (month d)) 2) = 2 \<and> (\<forall>c\<in>set (appendInt (int (month d)) 2). isDigit c)"
    using assms(3) by (intro appendInt_width) simp_all
  have a: "length (appendInt (int (day d)) 2) = 2 \<and> (\<forall>c\<in>set (appendInt (int (day d)) 2). isDigit c)"
    using assms(4) by (intro appendInt_width) simp_all
  show ?thesis
    apply (rule exI [of _ "appendInt (year d) 4"])
    apply (rule exI [of _ "appendInt (int (month d)) 2"])
    apply (rule exI [of _ "appendInt (int (day d)) 2"])
    using y m a by (auto simp: time_Format_def)
qed

lemma inked_plain: "\<forall>c\<in>set d. plainChar c \<Longrightarrow> inked d = d"
  by (induction d) (auto simp: inked_def plainChar_def isSpace_def isDigit_def ord_def)

lemma viewTrace_written:
  assumes "(f, c) \<in> set (writes (viewTrace w config (time_Format (now w)) v))"
  shows "f = filepath_Join (OutputDir config) (v @ ''.json'') \<and>
         (\<exists>raw. json_Indent (''{\"data\":'' @ raw @ '',\"export_date\":\"'' @ time_Format (now w) @ ''\"}'') = Inr c \<and>
            inked c = ''{\"data\":'' @ inked raw @ '',\"export_date\":\"'' @ time_Format (now w) @ ''\"}'')"
proof -
  let ?d = "time_Format (now w)"
  have p: "\<forall>c\<in>set ?d. plainChar c"
    by (simp add: time_Format_plain)
  show ?thesis
  proof (cases "query_row w (queryOf v)")
    case (Inl e)
    with assms show ?thesis by (simp add: viewTrace_writes)
  next
    case q: (Inr scanned)
    let ?data = "case scanned of None \<Rightarrow> Some ''[]'' | Some b \<Rightarrow> Some b"
    show ?thesis
    proof (cases "addExportDateToJSON ?data ?d")
      case (Inl e)
      with assms q show ?thesis by (simp add: viewTrace_writes)
    next
      case wr: (Inr wrapped)
      show ?thesis
      proof (cases "json_Indent wrapped")
        case (Inl e)
        with assms q wr show ?thesis by (simp add: viewTrace_writes)
      next
        case (Inr pretty)
        with assms q wr have fc: "f = filepath_Join (OutputDir config) (v @ ''.json'')" "c = pretty"
          by (simp_all add: viewTrace_writes)
        from wrap_shape [OF p wr] obtain raw where
          wd: "wrapped = ''{\"data\":'' @ raw @ '',\"export_date\":\"'' @ ?d @ ''\"}''"
          by blast
        have "inked pretty = inked wrapped"
          using Inr by (rule json_Indent_inked)
        also have "\<dots> = ''{\"data\":'' @ inked raw @ '',\"export_date\":\"'' @ ?d @ ''\"}''"
          using inked_plain [OF p] by (simp add: wd inked_append) (simp add: inked_def isSpace_def)
        finally show ?thesis
          using Inr fc wd by blast
      qed
    qed
  qed
qed


lemma view_path: "v \<in> set views \<Longrightarrow>
    filepath_Join dir (v @ ''.json'') = joinPrefix dir @ v @ ''.json''"
  by (simp add: filepath_Join_real views_real)

lemma loop_writes_distinct:
  "distinct (map fst (concat (map (\<lambda>v. writes (viewTrace w config d v)) views)))"
proof -
  have p: "filepath_Join (OutputDir config) (v @ ''.json'') = joinPrefix (OutputDir config) @ v @ ''.json''"
    if "v \<in> set views" for v
    using that by (rule view_path)
  show ?thesis
    using p [of "''hospital_seven_avg_change''"] p [of "''daily_wait_time_stats''"]
          p [of "''monthly_avg_wait_times''"]
    by (simp add: views_def viewTrace_writes split: sum.splits)
qed

text \<open>
  C3.  In a run, no path is written twice; every file handed to \<^verbatim>\<open>os.WriteFile\<close> has
  the path \<^verbatim>\<open>filepath.Join(OutputDir, view + ".json")\<close> of exactly one of the three
  views, and its content is the indented form of a wrapper whose \<^verbatim>\<open>export_date\<close>
  member is the date of the run as \<^verbatim>\<open>Format("2006-01-02")\<close> renders it, the same for
  all files: white space aside, the file reads \<^verbatim>\<open>{"data":\<close>, the rows,
  \<^verbatim>\<open>,"export_date":"\<close>, that date, \<^verbatim>\<open>"}\<close>.  For a calendar date with a year from
  0 to 9999 the date is four digits, a minus sign, two digits, a minus sign and two digits.
\<close>

theorem snapshot_files_share_export_date:
  "distinct (map fst (writes (trace (fst (run w))))) \<and>
   (\<forall>f c. (f, c) \<in> set (writes (trace (fst (run w)))) \<longrightarrow>
      (\<exists>config raw. snd (loadConfig w (initial w)) = Inr config \<and>
         (\<exists>!v. v \<in> set views \<and> f = filepath_Join (OutputDir config) (v @ ''.json'')) \<and>
         json_Indent (''{\"data\":'' @ raw @ '',\"export_date\":\"'' @ time_Format (now w) @ ''\"}'')
           = Inr c \<and>
         inked c = ''{\"data\":'' @ inked raw @ '',\"export_date\":\"'' @ time_Format (now w) @ ''\"}'')) \<and>
   (0 \<le> year (now w) \<and> year (now w) \<le> 9999 \<and> month (now w) \<le> 12 \<and> day (now w) \<le> 31 \<longrightarrow>
      (\<exists>Y M D. time_Format (now w) = Y @ ''-'' @ M @ ''-'' @ D \<and> length Y = 4 \<and> length M = 2 \<and>
         length D = 2 \<and> (\<forall>c\<in>set (Y @ M @ D). isDigit c)))"
proof (intro conjI allI impI)
  show "distinct (map fst (writes (trace (fst (run w)))))"
    using run_writes [of w] loop_writes_distinct by auto
next
  fix f c
  assume fc: "(f, c) \<in> set (writes (trace (fst (run w))))"
  with run_writes [of w] obtain config where
    cfg: "snd (loadConfig w (initial w)) = Inr config" and
    ws: "writes (trace (fst (run w))) =
           concat (map (\<lambda>v. writes (viewTrace w config (time_Format (now w)) v)) views)"
    by auto
  from fc ws obtain v where v: "v \<in> set views"
    "(f, c) \<in> set (writes (viewTrace w config (time_Format (now w)) v))"
    by auto
  from viewTrace_written [OF v(2)] obtain raw where
    f: "f = filepath_Join (OutputDir config) (v @ ''.json'')" and
    c: "json_Indent (''{\"data\":'' @ raw @ '',\"export_date\":\"'' @ time_Format (now w) @ ''\"}'') = Inr c"
       "inked c = ''{\"data\":'' @ inked raw @ '',\"export_date\":\"'' @ time_Format (now w) @ ''\"}''"
    by blast
  have "\<exists>!v. v \<in> set views \<and> f = filepath_Join (OutputDir config) (v @ ''.json'')"
  proof (rule ex1I [of _ v])
    show "v \<in> set views \<and> f = filepath_Join (OutputDir config) (v @ ''.json'')"
      using v(1) f by simp
  next
    fix v'
    assume "v' \<in> set views \<and> f = filepath_Join (OutputDir config) (v' @ ''.json'')"
    with v(1) f show "v' = v"
      using view_paths_inj [of v' v "OutputDir config"] by simp
  qed
  with cfg c show "\<exists>config raw. snd (loadConfig w (initial w)) = Inr config \<and>
         (\<exists>!v. v \<in> set views \<and> f = filepath_Join (OutputDir config) (v @ ''.json'')) \<and>
         json_Indent (''{\"data\":'' @ raw @ '',\"export_date\":\"'' @ time_Format (now w) @ ''\"}'')
           = Inr c \<and>
         inked c = ''{\"data\":'' @ inked raw @ '',\"export_date\":\"'' @ time_Format (now w) @ ''\"}''"
    by blast
next
  assume "0 \<le> year (now w) \<and> year (now w) \<le> 9999 \<and> month (now w) \<le> 12 \<and> day (now w) \<le> 31"
  then show "\<exists>Y M D. time_Format (now w) = Y @ ''-'' @ M @ ''-'' @ D \<and> length Y = 4 \<and> length M = 2 \<and>
         length D = 2 \<and> (\<forall>c\<in>set (Y @ M @ D). isDigit c)"
    using time_Format_shape [of "now w"] by blast
qed


lemma calm_config: "snd (loadConfig calm (initial calm)) = Inr defaultConfig"
proof -
  have d: "dotenv calm = Inr Map.empty"
    by (simp add: calm_def)
  have e: "effective_env calm = [''DB_PORT'' \<mapsto> ''5432'']"
    by (simp add: effective_env_def calm_def)
  have p: "strconv_Atoi ''5432'' = Inr 5432"
    by (simp add: strconv_Atoi_def isDigit_def ord_def)
  show ?thesis
    by (simp add: loadConfig_initial d e os_Getenv_def getEnvWithDefault_def p defaultConfig_def)
qed

lemma calm_date: "time_Format (now calm) = ''2024-03-07''"
  unfolding calm_def by code_simp

lemma calm_writes:
  "writes (trace (fst (run calm))) =
     [(''data_exports/hospital_seven_avg_change.json'', emptySnapshot),
      (''data_exports/daily_wait_time_stats.json'', emptySnapshot),
      (''data_exports/monthly_avg_wait_times.json'', emptySnapshot)]"
proof -
  have ok: "sql_open calm (connStr defaultConfig) = None" "db_ping calm = None"
    "mkdir_all calm (OutputDir defaultConfig) = None"
    by (simp_all add: calm_def)
  from run_reaches_loop [OF calm_config ok] obtain post where
    "trace (fst (run calm)) =
       [LoadDotenv, SqlOpen (connStr defaultConfig), Ping, Print Connected,
        MkdirAll (OutputDir defaultConfig)]
       @ concat (map (viewTrace calm defaultConfig (time_Format (now calm))) views) @ post"
    "writes post = []"
    by blast
  then have w: "writes (trace (fst (run calm))) =
      concat (map (\<lambda>v. writes (viewTrace calm defaultConfig ''2024-03-07'' v)) views)"
    by (simp add: writes_append writes_concat comp_def calm_date)
  have q: "query_row calm = (\<lambda>_. Inr None)"
    by (simp add: calm_def)
  have j: "filepath_Join ''data_exports'' ''hospital_seven_avg_change.json''
             = ''data_exports/hospital_seven_avg_change.json''"
    "filepath_Join ''data_exports'' ''daily_wait_time_stats.json''
             = ''data_exports/daily_wait_time_stats.json''"
    "filepath_Join ''data_exports'' ''monthly_avg_wait_times.json''
             = ''data_exports/monthly_avg_wait_times.json''"
    by code_simp+
  show ?thesis
    unfolding w
    by (simp add: views_def viewTrace_writes q empty_doc empty_pretty defaultConfig_def j)
qed

theorem snapshot_files_share_export_date_witness:
  "(''data_exports/daily_wait_time_stats.json'', emptySnapshot) \<in> set (writes (trace (fst (run calm)))) \<and>
   (\<exists>!v. v \<in> set views \<and> ''data_exports/daily_wait_time_stats.json'' = filepath_Join ''data_exports'' (v @ ''.json'')) \<and>
   (\<exists>raw. json_Indent (''{\"data\":'' @ raw @ '',\"export_date\":\"2024-03-07\"}'') = Inr emptySnapshot \<and>
      inked emptySnapshot = ''{\"data\":'' @ inked raw @ '',\"export_date\":\"2024-03-07\"}'') \<and>
   (\<exists>Y M D. ''2024-03-07'' = Y @ ''-'' @ M @ ''-'' @ D \<and> length Y = 4 \<and> length M = 2 \<and>
         length D = 2 \<and> (\<forall>c\<in>set (Y @ M @ D). isDigit c))"
proof -
  have m: "(''data_exports/daily_wait_time_stats.json'', emptySnapshot) \<in> set (writes (trace (fst (run calm))))"
    by (simp add: calm_writes)
  have r: "0 \<le> year (now calm) \<and> year (now calm) \<le> 9999 \<and> month (now calm) \<le> 12 \<and> day (now calm) \<le> 31"
    by (simp add: calm_def)
  have o: "OutputDir defaultConfig = ''data_exports''"
    by (simp add: defaultConfig_def)
  show ?thesis
    using snapshot_files_share_export_date [of calm] m r
    by (simp add: calm_config calm_date o)
qed

subsection \<open>The end of a run\<close>

text \<open>
  No branch of \<^verbatim>\<open>main\<close> calls \<^verbatim>\<open>os.Exit\<close>, \<^verbatim>\<open>log.Fatal\<close> or \<^verbatim>\<open>panic\<close>: each one
  ends in \<^verbatim>\<open>return\<close> or runs off the end of the function.
\<close>

lemma mainConnected_returns: "snd (mainConnected w config s) = Returned"
  by (simp add: mainConnected_def Let_def split: option.splits prod.splits)

lemma mainConnected_returns': "mainConnected w config s = (s', r) \<Longrightarrow> r = Returned"
  using mainConnected_returns [of w config s] by simp

lemma main_returns: "snd (main w s) = Returned"
  by (auto simp: main_def Let_def split: option.splits prod.splits sum.splits
           dest: mainConnected_returns')

text \<open>
  What the Publisher returns depends on the answers of the operating system and of
  \<^verbatim>\<open>git\<close> only, not on what the process did before.
\<close>

lemma gitSteps_result:
  "snd (gitSteps w m s) =
     (case run_cmd w ''git'' [''add'', ''.''] of
        (out1, Some e) \<Rightarrow> Some (GitAddFailed e out1)
      | (out1, None) \<Rightarrow>
          (case run_cmd w ''git'' [''commit'', ''-m'', ''Data export '' @ m] of
             (out2, Some e) \<Rightarrow>
               if bytes_Contains out2 ''nothing to commit'' then None
               else Some (GitCommitFailed e out2)
           | (out2, None) \<Rightarrow>
               (case run_cmd w ''git'' [''push''] of
                  (out3, Some e) \<Rightarrow> Some (GitPushFailed e out3)
                | (out3, None) \<Rightarrow> None)))"
  by (simp add: gitSteps_def exec_CombinedOutput_def Let_def split: prod.splits option.splits)

lemma gitCommitAndPush_result:
  "snd (gitCommitAndPush w r m s) =
     (case getwd w of
        Some e \<Rightarrow> Some (GetwdFailed e)
      | None \<Rightarrow>
          (case chdir w r of
             Some e \<Rightarrow> Some (ChdirFailed e)
           | None \<Rightarrow> snd (gitSteps w m s)))"
proof (cases "getwd w = None \<and> chdir w r = None")
  case True
  then have ok: "getwd w = None" "chdir w r = None" by simp_all
  show ?thesis
    by (simp only: gitCommitAndPush_entered [OF ok] snd_conv)
       (simp add: ok gitSteps_result)
next
  case False
  then show ?thesis
    by (auto simp: gitCommitAndPush_def os_Getwd_def os_Chdir_def split: option.splits)
qed

lemma gitCommitAndPush_result_same:
  "snd (gitCommitAndPush w r m s) = snd (gitCommitAndPush w r m s')"
  by (simp add: gitCommitAndPush_result gitSteps_result split: option.splits)


text \<open>The lines of one round of the loop, by the step at which the round ends.\<close>

lemma printed_concat_views:
  "v \<in> set vs \<Longrightarrow> l \<in> set (printed (viewTrace w config d v)) \<Longrightarrow>
     l \<in> set (printed (concat (map (viewTrace w config d) vs)))"
  by (induction vs) (auto simp: printed_append)

lemma viewTrace_error_lines:
  "(\<forall>e. query_row w (queryOf v) = Inl e \<longrightarrow>
        ErrorQueryingView v e \<in> set (printed (viewTrace w config d v))) \<and>
   (\<forall>scanned e. query_row w (queryOf v) = Inr scanned \<and>
        addExportDateToJSON (case scanned of None \<Rightarrow> Some ''[]'' | Some b \<Rightarrow> Some b) d = Inl e \<longrightarrow>
        ErrorAddingDate v e \<in> set (printed (viewTrace w config d v))) \<and>
   (\<forall>scanned wrapped e. query_row w (queryOf v) = Inr scanned \<and>
        addExportDateToJSON (case scanned of None \<Rightarrow> Some ''[]'' | Some b \<Rightarrow> Some b) d = Inr wrapped \<and>
        json_Indent wrapped = Inl e \<longrightarrow>
        ErrorFormatting v e \<in> set (printed (viewTrace w config d v))) \<and>
   (\<forall>scanned wrapped pretty e. query_row w (queryOf v) = Inr scanned \<and>
        addExportDateToJSON (case scanned of None \<Rightarrow> Some ''[]'' | Some b \<Rightarrow> Some b) d = Inr wrapped \<and>
        json_Indent wrapped = Inr pretty \<and>
        write_file w (filepath_Join (OutputDir config) (v @ ''.json'')) pretty = Some e \<longrightarrow>
        ErrorWritingFile (filepath_Join (OutputDir config) (v @ ''.json'')) e
          \<in> set (printed (viewTrace w config d v)))"
  by (simp add: viewTrace_cases Let_def)


text \<open>The configuration read in a world with the environment of \<open>calm\<close>.\<close>

lemma calm_like_config:
  "environ w = environ calm \<Longrightarrow> dotenv w = dotenv calm \<Longrightarrow>
     snd (loadConfig w (initial w)) = Inr defaultConfig"
proof -
  assume a: "environ w = environ calm" "dotenv w = dotenv calm"
  have d: "dotenv w = Inr Map.empty"
    using a by (simp add: calm_def)
  have e: "effective_env w = [''DB_PORT'' \<mapsto> ''5432'']"
    using a by (simp add: effective_env_def calm_def)
  have p: "strconv_Atoi ''5432'' = Inr 5432"
    by (simp add: strconv_Atoi_def isDigit_def ord_def)
  show ?thesis
    by (simp add: loadConfig_initial d e os_Getenv_def getEnvWithDefault_def p defaultConfig_def)
qed

text \<open>
  C9.  Every run returns from \<^verbatim>\<open>main\<close>, so the exit status is 0, whatever failed.
  The error of a fatal step is the last line printed: the configuration error, the
  connection error, the ping error, the error of creating the output directory.  When
  the loop over the views is reached, the last line is decided by what the Publisher
  returns: the line \<open>ErrorGit e\<close> for the error \<open>e\<close> it returns, the line \<open>Completed\<close>
  when it returns none.  Every line of every round of the loop is a line of the run,
  and a round in which the query, the wrapping, the indenting or the writing fails
  prints the line of that error with the view (for a write, the path) and the error.
\<close>

theorem every_error_path_prints_and_returns:
  "snd (run w) = Returned \<and> exit_status (snd (run w)) = 0 \<and>
   (\<forall>e. snd (loadConfig w (initial w)) = Inl e \<longrightarrow>
        last (printed (trace (fst (run w)))) = ErrorLoadingConfiguration e) \<and>
   (\<forall>config. snd (loadConfig w (initial w)) = Inr config \<longrightarrow>
      (\<forall>e. sql_open w (connStr config) = Some e \<longrightarrow>
           last (printed (trace (fst (run w)))) = ErrorConnecting e) \<and>
      (sql_open w (connStr config) = None \<longrightarrow>
         (\<forall>e. db_ping w = Some e \<longrightarrow> last (printed (trace (fst (run w)))) = ErrorPinging e) \<and>
         (db_ping w = None \<longrightarrow>
            (\<forall>e. mkdir_all w (OutputDir config) = Some e \<longrightarrow>
                 last (printed (trace (fst (run w)))) = ErrorCreatingOutputDir e) \<and>
            (mkdir_all w (OutputDir config) = None \<longrightarrow>
               (\<forall>s e. snd (gitCommitAndPush w (OutputDir config) (time_Format (now w)) s) = Some e \<longrightarrow>
                    last (printed (trace (fst (run w)))) = ErrorGit e) \<and>
               (\<forall>s. snd (gitCommitAndPush w (OutputDir config) (time_Format (now w)) s) = None \<longrightarrow>
                    last (printed (trace (fst (run w)))) = Completed) \<and>
               (\<forall>v l. v \<in> set views \<and> l \<in> set (printed (viewTrace w config (time_Format (now w)) v))
                    \<longrightarrow> l \<in> set (printed (trace (fst (run w))))) \<and>
               (\<forall>v. (\<forall>e. query_row w (queryOf v) = Inl e \<longrightarrow>
                        ErrorQueryingView v e
                          \<in> set (printed (viewTrace w config (time_Format (now w)) v))) \<and>
                    (\<forall>scanned e. query_row w (queryOf v) = Inr scanned \<and>
                        addExportDateToJSON (case scanned of None \<Rightarrow> Some ''[]'' | Some b \<Rightarrow> Some b)
                          (time_Format (now w)) = Inl e \<longrightarrow>
                        ErrorAddingDate v e
                          \<in> set (printed (viewTrace w config (time_Format (now w)) v))) \<and>
                    (\<forall>scanned wrapped e. query_row w (queryOf v) = Inr scanned \<and>
                        addExportDateToJSON (case scanned of None \<Rightarrow> Some ''[]'' | Some b \<Rightarrow> Some b)
                          (time_Format (now w)) = Inr wrapped \<and>
                        json_Indent wrapped = Inl e \<longrightarrow>
                        ErrorFormatting v e
                          \<in> set (printed (viewTrace w config (time_Format (now w)) v))) \<and>
                    (\<forall>scanned wrapped pretty e. query_row w (queryOf v) = Inr scanned \<and>
                        addExportDateToJSON (case scanned of None \<Rightarrow> Some ''[]'' | Some b \<Rightarrow> Some b)
                          (time_Format (now w)) = Inr wrapped \<and>
                        json_Indent wrapped = Inr pretty \<and>
                        write_file w (filepath_Join (OutputDir config) (v @ ''.json'')) pretty = Some e \<longrightarrow>
                        ErrorWritingFile (filepath_Join (OutputDir config) (v @ ''.json'')) e
                          \<in> set (printed (viewTrace w config (time_Format (now w)) v))))))))"
proof -
  let ?T = "trace (fst (run w))"
  let ?d = "time_Format (now w)"
  have r: "snd (run w) = Returned \<and> exit_status (snd (run w)) = 0"
    by (simp add: run_def main_returns exit_status_def)
  have 1: "last (printed ?T) = ErrorLoadingConfiguration e"
    if "snd (loadConfig w (initial w)) = Inl e" for e
    using that by (simp add: run_def main_config_error)
  have 2: "last (printed ?T) = ErrorConnecting e"
    if "snd (loadConfig w (initial w)) = Inr config" "sql_open w (connStr config) = Some e"
    for config e
    using that by (simp add: run_def main_config_ok)
  have 3: "last (printed ?T) =
             last (printed (trace (fst (mainConnected w config
                     (emit (SqlOpen (connStr config)) (fst (loadConfig w (initial w))))))))"
    if "snd (loadConfig w (initial w)) = Inr config" "sql_open w (connStr config) = None"
    for config
    using that by (simp add: run_def main_config_ok)
  have 4: "last (printed ?T) = ErrorPinging e"
    if "snd (loadConfig w (initial w)) = Inr config" "sql_open w (connStr config) = None"
       "db_ping w = Some e" for config e
    using that by (simp add: 3 mainConnected_last_line)
  have 5: "last (printed ?T) = ErrorCreatingOutputDir e"
    if "snd (loadConfig w (initial w)) = Inr config" "sql_open w (connStr config) = None"
       "db_ping w = None" "mkdir_all w (OutputDir config) = Some e" for config e
    using that by (simp add: 3 mainConnected_last_line)
  have 6: "last (printed ?T) =
             (case snd (gitCommitAndPush w (OutputDir config) ?d s) of
                Some e \<Rightarrow> ErrorGit e | None \<Rightarrow> Completed)"
    if "snd (loadConfig w (initial w)) = Inr config" "sql_open w (connStr config) = None"
       "db_ping w = None" "mkdir_all w (OutputDir config) = None" for config s
  proof -
    let ?s0 = "emit (SqlOpen (connStr config)) (fst (loadConfig w (initial w)))"
    have eq: "snd (gitCommitAndPush w (OutputDir config) ?d
                    (exportViews w config ?d views
                       (emit (MkdirAll (OutputDir config)) (say Connected (emit Ping ?s0))))) =
              snd (gitCommitAndPush w (OutputDir config) ?d s)"
      by (rule gitCommitAndPush_result_same)
    show ?thesis
      using that by (simp add: 3 mainConnected_last_line eq)
  qed
  have 7: "l \<in> set (printed ?T)"
    if "snd (loadConfig w (initial w)) = Inr config" "sql_open w (connStr config) = None"
       "db_ping w = None" "mkdir_all w (OutputDir config) = None"
       "v \<in> set views" "l \<in> set (printed (viewTrace w config ?d v))" for config v l
  proof -
    from run_reaches_loop [OF that(1-4)] obtain post where
      "?T = [LoadDotenv, SqlOpen (connStr config), Ping, Print Connected, MkdirAll (OutputDir config)]
            @ concat (map (viewTrace w config ?d) views) @ post"
      by blast
    then show ?thesis
      using printed_concat_views [OF that(5,6)] by (simp add: printed_append)
  qed
  show ?thesis
    apply (intro conjI allI impI)
    subgoal using r by simp
    subgoal using r by (simp add: exit_status_def)
    subgoal for e by (rule 1)
    subgoal for config e by (rule 2)
    subgoal for config e by (rule 4)
    subgoal for config e by (rule 5)
    subgoal for config s e using 6 [of config s] by simp
    subgoal for config s using 6 [of config s] by simp
    subgoal for config v l using 7 [of config v l] by simp
    subgoal for config v e using viewTrace_error_lines [of w v config ?d] by blast
    subgoal for config v scanned e using viewTrace_error_lines [of w v config ?d] by blast
    subgoal for config v scanned wrapped e using viewTrace_error_lines [of w v config ?d] by blast
    subgoal for config v scanned wrapped pretty e
      using viewTrace_error_lines [of w v config ?d] by blast
    done
qed


text \<open>
  In the world \<open>viewAndPushFail\<close> the query of the second view fails and the push is
  rejected: the run prints the query error, goes on, ends with the line of the push
  error, and returns.
\<close>

theorem every_error_path_prints_and_returns_witness:
  "snd (run viewAndPushFail) = Returned \<and>
   ErrorQueryingView ''daily_wait_time_stats'' ''pq: relation does not exist''
     \<in> set (printed (trace (fst (run viewAndPushFail)))) \<and>
   last (printed (trace (fst (run viewAndPushFail)))) =
     ErrorGit (GitPushFailed ''exit status 1'' ''! [rejected] main -> main (fetch first)'')"
proof -
  let ?w = viewAndPushFail
  let ?d = "time_Format (now ?w)"
  let ?v = "''daily_wait_time_stats''"
  have a: "snd (loadConfig ?w (initial ?w)) = Inr defaultConfig"
    by (rule calm_like_config)
       (simp_all add: viewAndPushFail_def secondViewFails_def pushRejected_def)
  have b: "sql_open ?w (connStr defaultConfig) = None" "db_ping ?w = None"
          "mkdir_all ?w (OutputDir defaultConfig) = None"
    by (simp_all add: viewAndPushFail_def secondViewFails_def calm_def)
  have g: "snd (gitCommitAndPush ?w (OutputDir defaultConfig) ?d (initial ?w)) =
             Some (GitPushFailed ''exit status 1'' ''! [rejected] main -> main (fetch first)'')"
    by (simp add: gitCommitAndPush_result gitSteps_result viewAndPushFail_def
                  secondViewFails_def pushRejected_def calm_def)
  have q: "query_row ?w (queryOf ?v) = Inl ''pq: relation does not exist''"
    by (simp add: viewAndPushFail_def secondViewFails_def)
  have v: "?v \<in> set views"
    by (simp add: views_def)
  note t = every_error_path_prints_and_returns [of ?w]
  have 1: "snd (run ?w) = Returned"
    using t by blast
  have 2: "last (printed (trace (fst (run ?w)))) =
             ErrorGit (GitPushFailed ''exit status 1'' ''! [rejected] main -> main (fetch first)'')"
    using t a b g by blast
  have 3: "ErrorQueryingView ?v ''pq: relation does not exist''
             \<in> set (printed (viewTrace ?w defaultConfig ?d ?v))"
    using t a b q by blast
  have 4: "ErrorQueryingView ?v ''pq: relation does not exist''
             \<in> set (printed (trace (fst (run ?w))))"
    using t a b v 3 by blast
  show ?thesis
    using 1 2 4 by simp
qed

end
